theory Spec2Isabelle
  imports Complex_Main
begin

section \<open>Abstract syntax (src/src/ast.py)\<close>

text \<open>
  The node classes of \<^verbatim>\<open>ast.py\<close> as one datatype per category. Fields that the
  constructors of the source default to \<^verbatim>\<open>None\<close> are options here, so that the
  assertions of the evaluator are branches of the model. Identifiers in binding
  position (\<^verbatim>\<open>LetStatement.name\<close>, \<^verbatim>\<open>Function.params\<close>, \<^verbatim>\<open>Function.name\<close>)
  are represented by their \<^verbatim>\<open>value\<close> string, the only field the evaluator reads.
  The \<^verbatim>\<open>token\<close> field of every node is read by \<^verbatim>\<open>token_literal\<close> and
  \<^verbatim>\<open>__str__\<close> only and is left out.
\<close>

datatype expression =
    ast_Identifier string
  | ast_Integer "int option"
  | ast_Boolean "bool option"
  | ast_StringLiteral string
  | ast_Prefix string "expression option"
  | ast_Infix expression string "expression option"
  | ast_If "expression option" "statement list option" "statement list option"
  | ast_Function "string list" "statement list option" "string option"
  | ast_Call expression "expression list option"
and statement =
    LetStatement "string option" "expression option"
  | ReturnStatement "expression option"
  | ExpressionStatement "expression option"
  | Block "statement list"

datatype node =
    Program "statement list"
  | Stmt statement
  | Expr expression

section \<open>Runtime objects and environments (src/src/object.py)\<close>

datatype ObjectType =
  OT_BOOLEAN | OT_BUILTIN | OT_ERROR | OT_FUNCTION | OT_INTEGER | OT_NULL | OT_RETURN | OT_STRING

fun type_name :: "ObjectType \<Rightarrow> string" where
  "type_name OT_BOOLEAN = ''BOOLEAN''"
| "type_name OT_BUILTIN = ''BUILTIN''"
| "type_name OT_ERROR = ''ERROR''"
| "type_name OT_FUNCTION = ''FUNCTION''"
| "type_name OT_INTEGER = ''INTEGER''"
| "type_name OT_NULL = ''NULL''"
| "type_name OT_RETURN = ''RETURN''"
| "type_name OT_STRING = ''STRING''"

datatype builtin_fn = length_fn

text \<open>
  Python compares objects with \<^verbatim>\<open>is\<close>. \<^verbatim>\<open>Return\<close>, \<^verbatim>\<open>Error\<close> and \<^verbatim>\<open>Function\<close>
  objects therefore carry the number of their allocation; the evaluator creates
  \<^verbatim>\<open>Boolean\<close> and \<^verbatim>\<open>Null\<close> objects once (\<^verbatim>\<open>TRUE\<close>, \<^verbatim>\<open>FALSE\<close>, \<^verbatim>\<open>NULL\<close>) and the
  table of built-ins holds one \<^verbatim>\<open>Builtin\<close> per name. \<^verbatim>\<open>Function\<close> holds its
  parameters, its body, a reference to its environment, and its name. The
  \<^verbatim>\<open>line\<close> field of \<^verbatim>\<open>Error\<close> always has its default 1 and is never read by the
  evaluator; it is left out.
\<close>

datatype obj =
    Integer int
  | Boolean bool
  | Null
  | Return nat obj
  | Error nat string
  | Function nat "string list" "statement list" nat string
  | String string
  | Builtin builtin_fn

fun obj_type :: "obj \<Rightarrow> ObjectType" where
  "obj_type (Integer v) = OT_INTEGER"
| "obj_type (Boolean v) = OT_BOOLEAN"
| "obj_type Null = OT_NULL"
| "obj_type (Return i v) = OT_RETURN"
| "obj_type (Error i m) = OT_ERROR"
| "obj_type (Function i ps b e nm) = OT_FUNCTION"
| "obj_type (String v) = OT_STRING"
| "obj_type (Builtin f) = OT_BUILTIN"

text \<open>
  \<^verbatim>\<open>left is right\<close>. The evaluator reaches the comparison only after the
  integer-integer and string-string cases have been dispatched, so two \<^verbatim>\<open>Integer\<close>
  or two \<^verbatim>\<open>String\<close> objects are never compared by identity.
\<close>

fun same_object :: "obj \<Rightarrow> obj \<Rightarrow> bool" where
  "same_object (Boolean a) (Boolean b) = (a = b)"
| "same_object Null Null = True"
| "same_object (Return i v) (Return j w) = (i = j)"
| "same_object (Error i m) (Error j k) = (i = j)"
| "same_object (Function i ps b e nm) (Function j qs c f nm') = (i = j)"
| "same_object (Builtin f) (Builtin g) = (f = g)"
| "same_object x y = False"

text \<open>
  An \<^verbatim>\<open>Environment\<close> is a mutable object that closures share, so environments
  live in a store and are referred to by their index. The heap also counts the
  allocations of objects with an identity.
\<close>

record Environment =
  store :: "string \<rightharpoonup> obj"
  outer :: "nat option"

record heap =
  frames :: "Environment list"
  next_id :: nat

definition new_Environment :: "nat option \<Rightarrow> heap \<Rightarrow> nat \<times> heap" where
  "new_Environment out h =
     (length (frames h), h\<lparr>frames := frames h @ [\<lparr>store = Map.empty, outer = out\<rparr>]\<rparr>)"

text \<open>
  \<^verbatim>\<open>Environment.__getitem__\<close>: the own store first, then the outer environment;
  \<^verbatim>\<open>None\<close> is the \<^verbatim>\<open>KeyError\<close>. An outer environment is always allocated before
  the environment that refers to it, which is what the walk relies on to end.
\<close>

function getitem :: "Environment list \<Rightarrow> nat \<Rightarrow> string \<Rightarrow> obj option" where
  "getitem fs r k =
     (if r < length fs then
        (case store (fs ! r) k of
           Some v \<Rightarrow> Some v
         | None \<Rightarrow>
             (case outer (fs ! r) of
                Some r' \<Rightarrow> if r' < r then getitem fs r' k else None
              | None \<Rightarrow> None))
      else None)"
  by pat_completeness auto
termination
  by (relation "measure (\<lambda>(fs, r, k). r)") auto

declare getitem.simps [simp del]

definition setitem :: "nat \<Rightarrow> string \<Rightarrow> obj \<Rightarrow> heap \<Rightarrow> heap" where
  "setitem r k v h =
     h\<lparr>frames := (frames h)[r := (frames h ! r)\<lparr>store := (store (frames h ! r))(k \<mapsto> v)\<rparr>]\<rparr>"

definition new_Error :: "string \<Rightarrow> heap \<Rightarrow> obj \<times> heap" where
  "new_Error msg h = (Error (next_id h) msg, h\<lparr>next_id := Suc (next_id h)\<rparr>)"

definition new_Return :: "obj \<Rightarrow> heap \<Rightarrow> obj \<times> heap" where
  "new_Return v h = (Return (next_id h) v, h\<lparr>next_id := Suc (next_id h)\<rparr>)"

definition new_Function ::
  "string list \<Rightarrow> statement list \<Rightarrow> nat \<Rightarrow> string \<Rightarrow> heap \<Rightarrow> obj \<times> heap" where
  "new_Function ps b e nm h = (Function (next_id h) ps b e nm, h\<lparr>next_id := Suc (next_id h)\<rparr>)"

section \<open>Native failures\<close>

text \<open>
  What Python raises instead of returning. \<^verbatim>\<open>OutOfFuel\<close> is the model's own: the
  recursion of the evaluator is bounded by a counter, and a run that uses it up
  has no result (in Python a recursion that deep is a \<^verbatim>\<open>RecursionError\<close>).
\<close>

datatype native = ZeroDivisionError | IndexError | AssertionError | AttributeError | OutOfFuel

section \<open>Built-ins (src/src/builtins.py)\<close>

function str_nat :: "nat \<Rightarrow> string" where
  "str_nat n =
     (if n < 10 then [char_of (48 + n)]
      else str_nat (n div 10) @ [char_of (48 + n mod 10)])"
  by pat_completeness auto
termination
  by (relation "measure id") auto

declare str_nat.simps [simp del]

definition UNSUPPORTED_ARG_TYPE :: "string \<Rightarrow> string" where
  "UNSUPPORTED_ARG_TYPE t = ''Invalid '' @ t @ '' type argument''"

definition WRONG_ARGS_NUM :: "string \<Rightarrow> string \<Rightarrow> string" where
  "WRONG_ARGS_NUM e g = ''Wrong number of arguments: expected '' @ e @ '' (given '' @ g @ '')''"

fun length_builtin :: "obj list \<Rightarrow> heap \<Rightarrow> obj \<times> heap" where
  "length_builtin [String v] h = (Integer (int (length v)), h)"
| "length_builtin [a] h = new_Error (UNSUPPORTED_ARG_TYPE (type_name (obj_type a))) h"
| "length_builtin args h = new_Error (WRONG_ARGS_NUM (str_nat 1) (str_nat (length args))) h"

fun call_builtin :: "builtin_fn \<Rightarrow> obj list \<Rightarrow> heap \<Rightarrow> obj \<times> heap" where
  "call_builtin length_fn args h = length_builtin args h"

definition BUILTINS :: "string \<rightharpoonup> obj" where
  "BUILTINS = [''length'' \<mapsto> Builtin length_fn]"

section \<open>The evaluator (src/src/evaluator.py)\<close>

abbreviation TRUE :: obj where "TRUE \<equiv> Boolean True"
abbreviation FALSE :: obj where "FALSE \<equiv> Boolean False"
abbreviation NULL :: obj where "NULL \<equiv> Null"

definition NOT_A_FUNCTION :: "string \<Rightarrow> string" where
  "NOT_A_FUNCTION t = ''Not a function: '' @ t"

definition TYPE_MISMATCH :: "string \<Rightarrow> string \<Rightarrow> string \<Rightarrow> string" where
  "TYPE_MISMATCH l oper r = ''Type mismatch: '' @ l @ '' '' @ oper @ '' '' @ r"

definition UNKNOWN_PREFIX_OPER :: "string \<Rightarrow> string \<Rightarrow> string" where
  "UNKNOWN_PREFIX_OPER oper t = ''Invalid operator ('' @ oper @ '') for type: '' @ t"

definition UNKNOWN_INFIX_OPER :: "string \<Rightarrow> string \<Rightarrow> string \<Rightarrow> string" where
  "UNKNOWN_INFIX_OPER l oper r = ''Invalid operation: '' @ l @ '' '' @ oper @ '' '' @ r"

definition UNKNOWN_IDENT :: "string \<Rightarrow> string" where
  "UNKNOWN_IDENT nm = ''Identifier not found: '' @ nm"

type_synonym 'a raising = "native + 'a"

type_synonym evaluator = "node \<Rightarrow> nat \<Rightarrow> heap \<Rightarrow> (obj option \<times> heap) raising"

definition to_boolean_object :: "bool \<Rightarrow> obj" where
  "to_boolean_object v = (if v then TRUE else FALSE)"

definition is_truthy :: "obj \<Rightarrow> bool" where
  "is_truthy ob = (if same_object ob NULL \<or> same_object ob FALSE then False else True)"

fun evaluate_bang :: "obj \<Rightarrow> obj" where
  "evaluate_bang (Integer v) = (if v = 0 then TRUE else FALSE)"
| "evaluate_bang right = (if \<not> is_truthy right then TRUE else FALSE)"

fun evaluate_positive :: "obj \<Rightarrow> heap \<Rightarrow> obj \<times> heap" where
  "evaluate_positive (Integer v) h = (Integer v, h)"
| "evaluate_positive right h = new_Error (UNKNOWN_PREFIX_OPER ''+'' (type_name (obj_type right))) h"

fun evaluate_negative :: "obj \<Rightarrow> heap \<Rightarrow> obj \<times> heap" where
  "evaluate_negative (Integer v) h = (Integer (- v), h)"
| "evaluate_negative right h = new_Error (UNKNOWN_PREFIX_OPER ''-'' (type_name (obj_type right))) h"

definition evaluate_prefix_expr :: "string \<Rightarrow> obj \<Rightarrow> heap \<Rightarrow> obj \<times> heap" where
  "evaluate_prefix_expr oper right h =
     (if oper = ''!'' then (evaluate_bang right, h)
      else if oper = ''+'' then evaluate_positive right h
      else if oper = ''-'' then evaluate_negative right h
      else new_Error (UNKNOWN_PREFIX_OPER oper (type_name (obj_type right))) h)"

text \<open>
  \<^verbatim>\<open>_eval_infix_int\<close> reads \<^verbatim>\<open>.value\<close> of both operands after a cast; it is called
  with two \<^verbatim>\<open>Integer\<close> objects only, and the last equation stands for a call with
  anything else. \<^verbatim>\<open>//\<close> is Python's floor division and raises on a zero divisor;
  \<^verbatim>\<open>div\<close> on \<^typ>\<open>int\<close> rounds the same way.
\<close>

fun eval_infix_int :: "string \<Rightarrow> obj \<Rightarrow> obj \<Rightarrow> heap \<Rightarrow> (obj \<times> heap) raising" where
  "eval_infix_int oper (Integer left_val) (Integer right_val) h =
     (if oper = ''+'' then Inr (Integer (left_val + right_val), h)
      else if oper = ''-'' then Inr (Integer (left_val - right_val), h)
      else if oper = ''*'' then Inr (Integer (left_val * right_val), h)
      else if oper = ''/'' then
        (if right_val = 0 then Inl ZeroDivisionError
         else Inr (Integer (left_val div right_val), h))
      else if oper = ''<'' then Inr (to_boolean_object (left_val < right_val), h)
      else if oper = ''>'' then Inr (to_boolean_object (left_val > right_val), h)
      else if oper = ''=='' then Inr (to_boolean_object (left_val = right_val), h)
      else if oper = ''!='' then Inr (to_boolean_object (left_val \<noteq> right_val), h)
      else if oper = ''<='' then Inr (to_boolean_object (left_val \<le> right_val), h)
      else if oper = ''>='' then Inr (to_boolean_object (left_val \<ge> right_val), h)
      else Inr (new_Error (UNKNOWN_INFIX_OPER (type_name OT_INTEGER) oper (type_name OT_INTEGER)) h))"
| "eval_infix_int oper left right h = Inl AttributeError"

text \<open>
  \<^verbatim>\<open>left_val * times\<close> on a Python string repeats it, and gives the empty string
  for a count below one. Python raises \<^verbatim>\<open>OverflowError\<close> or \<^verbatim>\<open>MemoryError\<close> when
  the result is too long for the machine; strings here have no such bound, and
  that failure is not part of the model.
\<close>

fun eval_infix_str :: "string \<Rightarrow> obj \<Rightarrow> obj \<Rightarrow> heap \<Rightarrow> (obj \<times> heap) raising" where
  "eval_infix_str oper (String left_val) (String right_val) h =
     (if oper = ''+'' then Inr (String (left_val @ right_val), h)
      else if oper = ''=='' then Inr (to_boolean_object (left_val = right_val), h)
      else if oper = ''!='' then Inr (to_boolean_object (left_val \<noteq> right_val), h)
      else Inr (new_Error (UNKNOWN_INFIX_OPER (type_name OT_STRING) oper (type_name OT_STRING)) h))"
| "eval_infix_str oper (String left_val) (Integer count) h =
     (if oper = ''*'' then Inr (String (concat (replicate (nat count) left_val)), h)
      else Inr (new_Error (TYPE_MISMATCH (type_name OT_STRING) oper (type_name OT_INTEGER)) h))"
| "eval_infix_str oper (String left_val) right h =
     Inr (new_Error (TYPE_MISMATCH (type_name OT_STRING) oper (type_name (obj_type right))) h)"
| "eval_infix_str oper left right h = Inl AttributeError"

definition evaluate_infix_expr :: "string \<Rightarrow> obj \<Rightarrow> obj \<Rightarrow> heap \<Rightarrow> (obj \<times> heap) raising" where
  "evaluate_infix_expr oper left right h =
     (if obj_type left = OT_INTEGER \<and> obj_type right = OT_INTEGER then
        eval_infix_int oper left right h
      else if obj_type left = OT_STRING
              \<and> (obj_type right = OT_STRING \<or> obj_type right = OT_INTEGER) then
        eval_infix_str oper left right h
      else if oper = ''=='' then Inr (to_boolean_object (same_object left right), h)
      else if oper = ''!='' then Inr (to_boolean_object (\<not> same_object left right), h)
      else if obj_type left \<noteq> obj_type right then
        Inr (new_Error (TYPE_MISMATCH (type_name (obj_type left)) oper (type_name (obj_type right))) h)
      else
        Inr (new_Error (UNKNOWN_INFIX_OPER (type_name (obj_type left)) oper (type_name (obj_type right))) h))"

text \<open>
  \<^verbatim>\<open>_evaluate_identifier\<close>: Python evaluates the default argument of
  \<^verbatim>\<open>BUILTINS.get\<close> first, so the \<^verbatim>\<open>Error\<close> object is allocated also when the name is
  a built-in.
\<close>

definition evaluate_identifier :: "string \<Rightarrow> nat \<Rightarrow> heap \<Rightarrow> obj \<times> heap" where
  "evaluate_identifier nm env h =
     (case getitem (frames h) env nm of
        Some v \<Rightarrow> (v, h)
      | None \<Rightarrow>
          (let (e, h1) = new_Error (UNKNOWN_IDENT nm) h
           in (case BUILTINS nm of Some b \<Rightarrow> (b, h1) | None \<Rightarrow> (e, h1))))"

text \<open>
  \<^verbatim>\<open>_evaluate_program\<close> and \<^verbatim>\<open>_evaluate_block_statements\<close>: the loops over the
  statements, with \<^verbatim>\<open>res\<close> as accumulator. The evaluator of the statements is a
  parameter; \<^verbatim>\<open>evaluate\<close> below passes itself.
\<close>

fun evaluate_program ::
  "evaluator \<Rightarrow> statement list \<Rightarrow> obj option \<Rightarrow> nat \<Rightarrow> heap \<Rightarrow> (obj option \<times> heap) raising" where
  "evaluate_program ev [] res env h = Inr (res, h)"
| "evaluate_program ev (stmnt # stmnts) res env h =
     (case ev (Stmt stmnt) env h of
        Inl x \<Rightarrow> Inl x
      | Inr (Some (Return i v), h1) \<Rightarrow> Inr (Some v, h1)
      | Inr (Some (Error i m), h1) \<Rightarrow> Inr (Some (Error i m), h1)
      | Inr (res1, h1) \<Rightarrow> evaluate_program ev stmnts res1 env h1)"

fun evaluate_block_statements ::
  "evaluator \<Rightarrow> statement list \<Rightarrow> obj option \<Rightarrow> nat \<Rightarrow> heap \<Rightarrow> (obj option \<times> heap) raising" where
  "evaluate_block_statements ev [] res env h = Inr (res, h)"
| "evaluate_block_statements ev (stmnt # stmnts) res env h =
     (case ev (Stmt stmnt) env h of
        Inl x \<Rightarrow> Inl x
      | Inr (None, h1) \<Rightarrow> evaluate_block_statements ev stmnts None env h1
      | Inr (Some r, h1) \<Rightarrow>
          (if obj_type r = OT_RETURN \<or> obj_type r = OT_ERROR then Inr (Some r, h1)
           else evaluate_block_statements ev stmnts (Some r) env h1))"

text \<open>
  \<^verbatim>\<open>_ext_func_env\<close>: a new environment below the function's, then one binding
  per parameter. \<^verbatim>\<open>args[idx]\<close> raises \<^verbatim>\<open>IndexError\<close> when there are fewer
  arguments than parameters.
\<close>

fun bind_params :: "string list \<Rightarrow> nat \<Rightarrow> obj list \<Rightarrow> nat \<Rightarrow> heap \<Rightarrow> heap raising" where
  "bind_params [] idx args env h = Inr h"
| "bind_params (param # params) idx args env h =
     (if idx < length args then bind_params params (Suc idx) args env (setitem env param (args ! idx) h)
      else Inl IndexError)"

fun ext_func_env :: "obj \<Rightarrow> obj list \<Rightarrow> heap \<Rightarrow> (nat \<times> heap) raising" where
  "ext_func_env (Function i params body fenv nm) args h =
     (let (env, h1) = new_Environment (Some fenv) h
      in (case bind_params params 0 args env h1 of
            Inl x \<Rightarrow> Inl x
          | Inr h2 \<Rightarrow> Inr (env, h2)))"
| "ext_func_env fn args h = Inl AttributeError"

fun unwrap_return_value :: "obj \<Rightarrow> obj" where
  "unwrap_return_value (Return i v) = v"
| "unwrap_return_value ob = ob"

fun apply_func :: "evaluator \<Rightarrow> obj \<Rightarrow> obj list \<Rightarrow> heap \<Rightarrow> (obj \<times> heap) raising" where
  "apply_func ev (Function i params body fenv nm) args h =
     (case ext_func_env (Function i params body fenv nm) args h of
        Inl x \<Rightarrow> Inl x
      | Inr (ext_env, h1) \<Rightarrow>
          (case ev (Stmt (Block body)) ext_env h1 of
             Inl x \<Rightarrow> Inl x
           | Inr (None, h2) \<Rightarrow> Inl AssertionError
           | Inr (Some evaluated, h2) \<Rightarrow> Inr (unwrap_return_value evaluated, h2)))"
| "apply_func ev (Builtin f) args h = Inr (call_builtin f args h)"
| "apply_func ev fn args h = Inr (new_Error (NOT_A_FUNCTION (type_name (obj_type fn))) h)"

fun evaluate_expr ::
  "evaluator \<Rightarrow> expression list \<Rightarrow> nat \<Rightarrow> heap \<Rightarrow> (obj list \<times> heap) raising" where
  "evaluate_expr ev [] env h = Inr ([], h)"
| "evaluate_expr ev (e # es) env h =
     (case ev (Expr e) env h of
        Inl x \<Rightarrow> Inl x
      | Inr (None, h1) \<Rightarrow> Inl AssertionError
      | Inr (Some evaluated, h1) \<Rightarrow>
          (case evaluate_expr ev es env h1 of
             Inl x \<Rightarrow> Inl x
           | Inr (res, h2) \<Rightarrow> Inr (evaluated # res, h2)))"

fun evaluate_if_expr ::
  "evaluator \<Rightarrow> expression option \<Rightarrow> statement list option \<Rightarrow> statement list option
     \<Rightarrow> nat \<Rightarrow> heap \<Rightarrow> (obj option \<times> heap) raising" where
  "evaluate_if_expr ev None consequence alternative env h = Inl AssertionError"
| "evaluate_if_expr ev (Some condition) consequence alternative env h =
     (case ev (Expr condition) env h of
        Inl x \<Rightarrow> Inl x
      | Inr (None, h1) \<Rightarrow> Inl AssertionError
      | Inr (Some cond, h1) \<Rightarrow>
          (if is_truthy cond then
             (case consequence of
                None \<Rightarrow> Inl AssertionError
              | Some c \<Rightarrow> ev (Stmt (Block c)) env h1)
           else
             (case alternative of
                Some a \<Rightarrow> ev (Stmt (Block a)) env h1
              | None \<Rightarrow> Inr (Some NULL, h1))))"

text \<open>
  \<^verbatim>\<open>evaluate\<close>. The first argument bounds the depth of the recursion: every call
  of \<^verbatim>\<open>evaluate\<close> in the source is a call with one less here.
\<close>

fun evaluate :: "nat \<Rightarrow> node \<Rightarrow> nat \<Rightarrow> heap \<Rightarrow> (obj option \<times> heap) raising" where
  "evaluate 0 nd env h = Inl OutOfFuel"
| "evaluate (Suc n) (Program stmnts) env h = evaluate_program (evaluate n) stmnts None env h"
| "evaluate (Suc n) (Stmt (ExpressionStatement None)) env h = Inl AssertionError"
| "evaluate (Suc n) (Stmt (ExpressionStatement (Some e))) env h = evaluate n (Expr e) env h"
| "evaluate (Suc n) (Expr (ast_Integer None)) env h = Inl AssertionError"
| "evaluate (Suc n) (Expr (ast_Integer (Some v))) env h = Inr (Some (Integer v), h)"
| "evaluate (Suc n) (Expr (ast_Boolean None)) env h = Inl AssertionError"
| "evaluate (Suc n) (Expr (ast_Boolean (Some v))) env h = Inr (Some (to_boolean_object v), h)"
| "evaluate (Suc n) (Expr (ast_Prefix oper None)) env h = Inl AssertionError"
| "evaluate (Suc n) (Expr (ast_Prefix oper (Some r))) env h =
     (case evaluate n (Expr r) env h of
        Inl x \<Rightarrow> Inl x
      | Inr (None, h1) \<Rightarrow> Inl AssertionError
      | Inr (Some right, h1) \<Rightarrow>
          (let (res, h2) = evaluate_prefix_expr oper right h1 in Inr (Some res, h2)))"
| "evaluate (Suc n) (Expr (ast_Infix l oper None)) env h = Inl AssertionError"
| "evaluate (Suc n) (Expr (ast_Infix l oper (Some r))) env h =
     (case evaluate n (Expr l) env h of
        Inl x \<Rightarrow> Inl x
      | Inr (left, h1) \<Rightarrow>
          (case evaluate n (Expr r) env h1 of
             Inl x \<Rightarrow> Inl x
           | Inr (right, h2) \<Rightarrow>
               (case (left, right) of
                  (Some left1, Some right1) \<Rightarrow>
                    (case evaluate_infix_expr oper left1 right1 h2 of
                       Inl x \<Rightarrow> Inl x
                     | Inr (res, h3) \<Rightarrow> Inr (Some res, h3))
                | _ \<Rightarrow> Inl AssertionError)))"
| "evaluate (Suc n) (Stmt (Block stmnts)) env h =
     evaluate_block_statements (evaluate n) stmnts None env h"
| "evaluate (Suc n) (Expr (ast_If condition consequence alternative)) env h =
     evaluate_if_expr (evaluate n) condition consequence alternative env h"
| "evaluate (Suc n) (Stmt (ReturnStatement None)) env h = Inl AssertionError"
| "evaluate (Suc n) (Stmt (ReturnStatement (Some e))) env h =
     (case evaluate n (Expr e) env h of
        Inl x \<Rightarrow> Inl x
      | Inr (None, h1) \<Rightarrow> Inl AssertionError
      | Inr (Some v, h1) \<Rightarrow> (let (res, h2) = new_Return v h1 in Inr (Some res, h2)))"
| "evaluate (Suc n) (Stmt (LetStatement nm None)) env h = Inl AssertionError"
| "evaluate (Suc n) (Stmt (LetStatement nm (Some e))) env h =
     (case evaluate n (Expr e) env h of
        Inl x \<Rightarrow> Inl x
      | Inr (None, h1) \<Rightarrow> Inl AssertionError
      | Inr (Some v, h1) \<Rightarrow>
          (case nm of
             None \<Rightarrow> Inl AssertionError
           | Some name \<Rightarrow> Inr (Some v, setitem env name v h1)))"
| "evaluate (Suc n) (Expr (ast_Identifier nm)) env h =
     (let (res, h1) = evaluate_identifier nm env h in Inr (Some res, h1))"
| "evaluate (Suc n) (Expr (ast_Function params None nm)) env h = Inl AssertionError"
| "evaluate (Suc n) (Expr (ast_Function params (Some body) None)) env h =
     (let (func, h1) = new_Function params body env [] h in Inr (Some func, h1))"
| "evaluate (Suc n) (Expr (ast_Function params (Some body) (Some name))) env h =
     (let (func, h1) = new_Function params body env name h
      in Inr (Some func, setitem env name func h1))"
| "evaluate (Suc n) (Expr (ast_Call f args)) env h =
     (case evaluate n (Expr f) env h of
        Inl x \<Rightarrow> Inl x
      | Inr (None, h1) \<Rightarrow> Inl AssertionError
      | Inr (Some function, h1) \<Rightarrow>
          (case args of
             None \<Rightarrow> Inl AssertionError
           | Some as \<Rightarrow>
               (case evaluate_expr (evaluate n) as env h1 of
                  Inl x \<Rightarrow> Inl x
                | Inr (args1, h2) \<Rightarrow>
                    (case apply_func (evaluate n) function args1 h2 of
                       Inl x \<Rightarrow> Inl x
                     | Inr (res, h3) \<Rightarrow> Inr (Some res, h3)))))"
| "evaluate (Suc n) (Expr (ast_StringLiteral v)) env h = Inr (Some (String v), h)"

text \<open>The heap of a fresh top-level \<^verbatim>\<open>Environment()\<close>, which is environment 0.\<close>

definition empty_heap :: heap where
  "empty_heap = \<lparr>frames = [\<lparr>store = Map.empty, outer = None\<rparr>], next_id = 0\<rparr>"

section \<open>Tokens (src/src/token.py)\<close>

datatype TokenType =
    TT_AND | TT_ASSIGN | TT_COMMA | TT_CONST | TT_DIVISION | TT_EQUALS | TT_ELSE | TT_EOF
  | TT_FALSE | TT_FUNCTION | TT_ILLEGAL | TT_GE | TT_GT | TT_IDENT | TT_IF | TT_INT
  | TT_INTERSECTION | TT_LBRACE | TT_LE | TT_LET | TT_LT | TT_LPAREN | TT_MINUS
  | TT_MULTIPLICATION | TT_NEGATION | TT_NOT_EQUALS | TT_OR | TT_PLUS | TT_RBRACE
  | TT_RETURN | TT_RPAREN | TT_SEMICOLON | TT_STRING | TT_TRUE | TT_UNION | TT_VAR | TT_XOR

datatype Token = Token (token_type: TokenType) (literal: string)

definition KEYWORDS :: "string \<rightharpoonup> TokenType" where
  "KEYWORDS =
     [''and'' \<mapsto> TT_AND, ''const'' \<mapsto> TT_CONST, ''else'' \<mapsto> TT_ELSE, ''false'' \<mapsto> TT_FALSE,
      ''function'' \<mapsto> TT_FUNCTION, ''if'' \<mapsto> TT_IF, ''let'' \<mapsto> TT_LET, ''or'' \<mapsto> TT_OR,
      ''return'' \<mapsto> TT_RETURN, ''true'' \<mapsto> TT_TRUE, ''var'' \<mapsto> TT_VAR, ''xor'' \<mapsto> TT_XOR]"

definition lookup_token_type :: "string \<Rightarrow> TokenType" where
  "lookup_token_type lit = (case KEYWORDS lit of Some t \<Rightarrow> t | None \<Rightarrow> TT_IDENT)"

section \<open>The lexer (src/src/lexer.py)\<close>

text \<open>
  The state of a \<^verbatim>\<open>Lexer\<close>. \<^verbatim>\<open>_character\<close> is a Python string of length one,
  or the empty string at the end of the input, and is a string here as well.
  A character of the source is a \<^typ>\<open>char\<close>, which covers the code points
  below 256.
\<close>

record Lexer =
  source :: string
  character :: string
  position :: nat
  read_position :: nat

definition read_character :: "Lexer \<Rightarrow> Lexer" where
  "read_character lx =
     lx\<lparr>character :=
          (if read_position lx \<ge> length (source lx) then [] else [source lx ! read_position lx]),
        position := read_position lx,
        read_position := read_position lx + 1\<rparr>"

definition new_Lexer :: "string \<Rightarrow> Lexer" where
  "new_Lexer src = read_character \<lparr>source = src, character = [], position = 0, read_position = 0\<rparr>"

definition peek_character :: "Lexer \<Rightarrow> string" where
  "peek_character lx =
     (if read_position lx \<ge> length (source lx) then [] else [source lx ! read_position lx])"

text \<open>
  The character classes of the regular expressions, on strings of length one.
  \<^verbatim>\<open>\s\<close> on a Python \<^verbatim>\<open>str\<close> is Unicode white space; below 256 these are the
  code points 9 to 13, 28 to 32, 133 and 160.
\<close>

definition is_whitespace :: "string \<Rightarrow> bool" where
  "is_whitespace ch =
     (case ch of
        [c] \<Rightarrow> (let n = (of_char c :: nat)
                in (9 \<le> n \<and> n \<le> 13) \<or> (28 \<le> n \<and> n \<le> 32) \<or> n = 133 \<or> n = 160)
      | _ \<Rightarrow> False)"

definition is_letter :: "string \<Rightarrow> bool" where
  "is_letter ch =
     (case ch of
        [c] \<Rightarrow> (let n = (of_char c :: nat)
                in (97 \<le> n \<and> n \<le> 122) \<or> (65 \<le> n \<and> n \<le> 90) \<or> n = 95)
      | _ \<Rightarrow> False)"

definition is_number :: "string \<Rightarrow> bool" where
  "is_number ch =
     (case ch of
        [c] \<Rightarrow> (let n = (of_char c :: nat) in 48 \<le> n \<and> n \<le> 57)
      | _ \<Rightarrow> False)"

text \<open>The slice \<^verbatim>\<open>source[a:b]\<close>.\<close>

definition slice :: "string \<Rightarrow> nat \<Rightarrow> nat \<Rightarrow> string" where
  "slice s a b = drop a (take b s)"

text \<open>
  The loops of the lexer. Each of them stops at the end of the input, where
  the current character is the empty string; the measures say so.
\<close>

function skip_whitespace :: "Lexer \<Rightarrow> Lexer" where
  "skip_whitespace lx =
     (if is_whitespace (character lx) then skip_whitespace (read_character lx) else lx)"
  by pat_completeness auto
termination
  by (relation "measure (\<lambda>lx. (length (source lx) - read_position lx)
                              + (if is_whitespace (character lx) then 1 else 0))")
     (auto simp: read_character_def is_whitespace_def)

declare skip_whitespace.simps [simp del]

function read_identifier_loop :: "Lexer \<Rightarrow> Lexer" where
  "read_identifier_loop lx =
     (if is_letter (character lx) \<or> is_number (character lx)
      then read_identifier_loop (read_character lx) else lx)"
  by pat_completeness auto
termination
  by (relation "measure (\<lambda>lx. (length (source lx) - read_position lx)
                  + (if is_letter (character lx) \<or> is_number (character lx) then 1 else 0))")
     (auto simp: read_character_def is_letter_def is_number_def)

declare read_identifier_loop.simps [simp del]

definition read_identifier :: "Lexer \<Rightarrow> string \<times> Lexer" where
  "read_identifier lx =
     (let initial_position = position lx;
          lx1 = read_identifier_loop lx
      in (slice (source lx1) initial_position (position lx1), lx1))"

function read_number_loop :: "Lexer \<Rightarrow> Lexer" where
  "read_number_loop lx =
     (if is_number (character lx) then read_number_loop (read_character lx) else lx)"
  by pat_completeness auto
termination
  by (relation "measure (\<lambda>lx. (length (source lx) - read_position lx)
                  + (if is_number (character lx) then 1 else 0))")
     (auto simp: read_character_def is_number_def)

declare read_number_loop.simps [simp del]

definition read_number :: "Lexer \<Rightarrow> string \<times> Lexer" where
  "read_number lx =
     (let initial_position = position lx;
          lx1 = read_number_loop lx
      in (slice (source lx1) initial_position (position lx1), lx1))"

function read_string_loop :: "string \<Rightarrow> Lexer \<Rightarrow> Lexer" where
  "read_string_loop quote_type lx =
     (if character lx \<noteq> quote_type \<and> read_position lx \<le> length (source lx)
      then read_string_loop quote_type (read_character lx) else lx)"
  by pat_completeness auto
termination
  by (relation "measure (\<lambda>(q, lx). Suc (length (source lx)) - read_position lx)")
     (auto simp: read_character_def)

declare read_string_loop.simps [simp del]

definition read_string :: "Lexer \<Rightarrow> string \<times> Lexer" where
  "read_string lx =
     (let quote_type = character lx;
          lx1 = read_character lx;
          initial_position = position lx1;
          lx2 = read_string_loop quote_type lx1;
          string = slice (source lx2) initial_position (position lx2)
      in (string, read_character lx2))"

definition make_two_character_token :: "TokenType \<Rightarrow> Lexer \<Rightarrow> Token \<times> Lexer" where
  "make_two_character_token tt lx =
     (let prefix = character lx;
          lx1 = read_character lx;
          suffix = character lx1
      in (Token tt (prefix @ suffix), lx1))"

text \<open>
  \<^verbatim>\<open>next_token\<close>. The branches that assign \<^verbatim>\<open>token\<close> go on to the final
  \<^verbatim>\<open>_read_character\<close> (\<open>then_read\<close>); the three that read a literal return at
  once. Each pattern \<^verbatim>\<open>^c$\<close> matches the string of the one character \<open>c\<close>;
  \<^verbatim>\<open>^$\<close> matches the empty string and, since \<^verbatim>\<open>$\<close> also matches before a final
  newline, the string of a newline.
\<close>

definition then_read :: "Token \<times> Lexer \<Rightarrow> Token \<times> Lexer" where
  "then_read r = (fst r, read_character (snd r))"

definition next_token :: "Lexer \<Rightarrow> Token \<times> Lexer" where
  "next_token lx0 =
     (let lx = skip_whitespace lx0; ch = character lx in
      if ch = ''='' then
        (if peek_character lx = ''='' then then_read (make_two_character_token TT_EQUALS lx)
         else then_read (Token TT_ASSIGN ch, lx))
      else if ch = ''!'' then
        (if peek_character lx = ''='' then then_read (make_two_character_token TT_NOT_EQUALS lx)
         else then_read (Token TT_NEGATION ch, lx))
      else if ch = ''&'' then
        (if peek_character lx = ''&'' then then_read (make_two_character_token TT_AND lx)
         else then_read (Token TT_INTERSECTION ch, lx))
      else if ch = ''|'' then
        (if peek_character lx = ''|'' then then_read (make_two_character_token TT_OR lx)
         else then_read (Token TT_UNION ch, lx))
      else if ch = ''^'' then then_read (Token TT_XOR ch, lx)
      else if ch = ''+'' then then_read (Token TT_PLUS ch, lx)
      else if ch = ''-'' then then_read (Token TT_MINUS ch, lx)
      else if ch = ''*'' then then_read (Token TT_MULTIPLICATION ch, lx)
      else if ch = ''/'' then then_read (Token TT_DIVISION ch, lx)
      else if ch = [] \<or> ch = [CHR 0x0A] then then_read (Token TT_EOF ch, lx)
      else if ch = ''('' then then_read (Token TT_LPAREN ch, lx)
      else if ch = '')'' then then_read (Token TT_RPAREN ch, lx)
      else if ch = ''{'' then then_read (Token TT_LBRACE ch, lx)
      else if ch = ''}'' then then_read (Token TT_RBRACE ch, lx)
      else if ch = '','' then then_read (Token TT_COMMA ch, lx)
      else if ch = [CHR 0x22] \<or> ch = [CHR 0x27] then
        (let (lit, lx1) = read_string lx in (Token TT_STRING lit, lx1))
      else if ch = '';'' then then_read (Token TT_SEMICOLON ch, lx)
      else if ch = ''<'' then
        (if peek_character lx = ''='' then then_read (make_two_character_token TT_LE lx)
         else then_read (Token TT_LT ch, lx))
      else if ch = ''>'' then
        (if peek_character lx = ''='' then then_read (make_two_character_token TT_GE lx)
         else then_read (Token TT_GT ch, lx))
      else if is_letter ch then
        (let (lit, lx1) = read_identifier lx in (Token (lookup_token_type lit) lit, lx1))
      else if is_number ch then
        (let (lit, lx1) = read_number lx in (Token TT_INT lit, lx1))
      else then_read (Token TT_ILLEGAL ch, lx))"

section \<open>The parser (src/src/parser.py)\<close>

text \<open>The members of \<^verbatim>\<open>Precedence\<close>, with the prefix \<open>P_\<close>.\<close>

datatype Precedence = P_LOWEST | P_EQUALS | P_LESSGREATER | P_SUM | P_PRODUCT | P_PREFIX | P_CALL

fun precedence_value :: "Precedence \<Rightarrow> nat" where
  "precedence_value P_LOWEST = 1"
| "precedence_value P_EQUALS = 2"
| "precedence_value P_LESSGREATER = 3"
| "precedence_value P_SUM = 4"
| "precedence_value P_PRODUCT = 5"
| "precedence_value P_PREFIX = 6"
| "precedence_value P_CALL = 7"

definition PRECEDENCES :: "TokenType \<rightharpoonup> Precedence" where
  "PRECEDENCES =
     [TT_EQUALS \<mapsto> P_EQUALS, TT_NOT_EQUALS \<mapsto> P_EQUALS,
      TT_LT \<mapsto> P_LESSGREATER, TT_GT \<mapsto> P_LESSGREATER, TT_LE \<mapsto> P_LESSGREATER, TT_GE \<mapsto> P_LESSGREATER,
      TT_PLUS \<mapsto> P_SUM, TT_MINUS \<mapsto> P_SUM,
      TT_MULTIPLICATION \<mapsto> P_PRODUCT, TT_DIVISION \<mapsto> P_PRODUCT,
      TT_NEGATION \<mapsto> P_PREFIX,
      TT_AND \<mapsto> P_LESSGREATER, TT_OR \<mapsto> P_LESSGREATER, TT_XOR \<mapsto> P_LESSGREATER,
      TT_LPAREN \<mapsto> P_CALL]"

text \<open>The texts of a token type and of a token in the messages of the parser.\<close>

fun TokenType_name :: "TokenType \<Rightarrow> string" where
  "TokenType_name TT_AND = ''AND''"
| "TokenType_name TT_ASSIGN = ''ASSIGN''"
| "TokenType_name TT_COMMA = ''COMMA''"
| "TokenType_name TT_CONST = ''CONST''"
| "TokenType_name TT_DIVISION = ''DIVISION''"
| "TokenType_name TT_EQUALS = ''EQUALS''"
| "TokenType_name TT_ELSE = ''ELSE''"
| "TokenType_name TT_EOF = ''EOF''"
| "TokenType_name TT_FALSE = ''FALSE''"
| "TokenType_name TT_FUNCTION = ''FUNCTION''"
| "TokenType_name TT_ILLEGAL = ''ILLEGAL''"
| "TokenType_name TT_GE = ''GE''"
| "TokenType_name TT_GT = ''GT''"
| "TokenType_name TT_IDENT = ''IDENT''"
| "TokenType_name TT_IF = ''IF''"
| "TokenType_name TT_INT = ''INT''"
| "TokenType_name TT_INTERSECTION = ''INTERSECTION''"
| "TokenType_name TT_LBRACE = ''LBRACE''"
| "TokenType_name TT_LE = ''LE''"
| "TokenType_name TT_LET = ''LET''"
| "TokenType_name TT_LT = ''LT''"
| "TokenType_name TT_LPAREN = ''LPAREN''"
| "TokenType_name TT_MINUS = ''MINUS''"
| "TokenType_name TT_MULTIPLICATION = ''MULTIPLICATION''"
| "TokenType_name TT_NEGATION = ''NEGATION''"
| "TokenType_name TT_NOT_EQUALS = ''NOT_EQUALS''"
| "TokenType_name TT_OR = ''OR''"
| "TokenType_name TT_PLUS = ''PLUS''"
| "TokenType_name TT_RBRACE = ''RBRACE''"
| "TokenType_name TT_RETURN = ''RETURN''"
| "TokenType_name TT_RPAREN = ''RPAREN''"
| "TokenType_name TT_SEMICOLON = ''SEMICOLON''"
| "TokenType_name TT_STRING = ''STRING''"
| "TokenType_name TT_TRUE = ''TRUE''"
| "TokenType_name TT_UNION = ''UNION''"
| "TokenType_name TT_VAR = ''VAR''"
| "TokenType_name TT_XOR = ''XOR''"

definition str_TokenType :: "TokenType \<Rightarrow> string" where
  "str_TokenType t = ''TokenType.'' @ TokenType_name t"

definition str_Token :: "Token \<Rightarrow> string" where
  "str_Token t = ''Type: '' @ str_TokenType (token_type t) @ '', Literal: '' @ literal t"

text \<open>
  The state of a \<^verbatim>\<open>Parser\<close>. The constructor sets \<^verbatim>\<open>_current_token\<close> and
  \<^verbatim>\<open>_peek_token\<close> by two calls of \<^verbatim>\<open>_advance_tokens\<close>, and no method sets them to
  \<^verbatim>\<open>None\<close> again, so both are tokens here and the assertions that they are not
  \<^verbatim>\<open>None\<close> never fail. The two tables of parsing functions are functions of the
  token type below.
\<close>

record Parser =
  lexer :: Lexer
  current_token :: Token
  peek_token :: Token
  errors :: "string list"

text \<open>
  The parsing methods call each other through \<^verbatim>\<open>_parse_expression\<close>. Here
  each of them takes the parser of expressions as its argument \<open>pe\<close>, and
  \<open>parse_expression\<close> at the end passes itself. The recursion and the loops are
  bounded by a counter; \<^verbatim>\<open>None\<close> is a run that used it up.
\<close>

type_synonym 'a parsed = "('a \<times> Parser) option"

type_synonym expression_parser = "Precedence \<Rightarrow> Parser \<Rightarrow> expression option parsed"

definition advance_tokens :: "Parser \<Rightarrow> Parser" where
  "advance_tokens p =
     (let (t, lx) = next_token (lexer p)
      in p\<lparr>current_token := peek_token p, peek_token := t, lexer := lx\<rparr>)"

definition new_Parser :: "Lexer \<Rightarrow> Parser" where
  "new_Parser lx =
     (let (t1, lx1) = next_token lx; (t2, lx2) = next_token lx1
      in \<lparr>lexer = lx2, current_token = t1, peek_token = t2, errors = []\<rparr>)"

definition expected_token_error :: "TokenType \<Rightarrow> Parser \<Rightarrow> Parser" where
  "expected_token_error tt p =
     p\<lparr>errors := errors p @
         [''Expected token: '' @ str_TokenType tt @ '' but the token inserted is: ''
            @ str_Token (peek_token p)]\<rparr>"

definition expected_token :: "TokenType \<Rightarrow> Parser \<Rightarrow> bool \<times> Parser" where
  "expected_token tt p =
     (if token_type (peek_token p) = tt then (True, advance_tokens p)
      else (False, expected_token_error tt p))"

definition skip_semicolon :: "Parser \<Rightarrow> Parser" where
  "skip_semicolon p =
     (if token_type (peek_token p) = TT_SEMICOLON then advance_tokens p else p)"

definition parse_let_statement :: "expression_parser \<Rightarrow> Parser \<Rightarrow> statement option parsed" where
  "parse_let_statement pe p =
     (let (ok1, p1) = expected_token TT_IDENT p in
      if \<not> ok1 then Some (None, p1)
      else
        (let name = literal (current_token p1);
             (ok2, p2) = expected_token TT_ASSIGN p1 in
         if \<not> ok2 then Some (None, p2)
         else
           (case pe P_LOWEST (advance_tokens p2) of
              None \<Rightarrow> None
            | Some (v, p3) \<Rightarrow> Some (Some (LetStatement (Some name) v), skip_semicolon p3))))"

definition parse_return_statement :: "expression_parser \<Rightarrow> Parser \<Rightarrow> statement option parsed" where
  "parse_return_statement pe p =
     (case pe P_LOWEST (advance_tokens p) of
        None \<Rightarrow> None
      | Some (v, p1) \<Rightarrow> Some (Some (ReturnStatement v), skip_semicolon p1))"

definition parse_expression_statement :: "expression_parser \<Rightarrow> Parser \<Rightarrow> statement option parsed" where
  "parse_expression_statement pe p =
     (case pe P_LOWEST p of
        None \<Rightarrow> None
      | Some (e, p1) \<Rightarrow> Some (Some (ExpressionStatement e), skip_semicolon p1))"

definition peek_precedence :: "Parser \<Rightarrow> Precedence" where
  "peek_precedence p =
     (case PRECEDENCES (token_type (peek_token p)) of Some pr \<Rightarrow> pr | None \<Rightarrow> P_LOWEST)"

definition current_precedence :: "Parser \<Rightarrow> Precedence" where
  "current_precedence p =
     (case PRECEDENCES (token_type (current_token p)) of Some pr \<Rightarrow> pr | None \<Rightarrow> P_LOWEST)"

definition parse_statement :: "expression_parser \<Rightarrow> Parser \<Rightarrow> statement option parsed" where
  "parse_statement pe p =
     (if token_type (current_token p) = TT_LET \<or> token_type (current_token p) = TT_VAR
         \<or> token_type (current_token p) = TT_CONST
      then parse_let_statement pe p
      else if token_type (current_token p) = TT_RETURN then parse_return_statement pe p
      else parse_expression_statement pe p)"

definition parse_string_literal :: "Parser \<Rightarrow> expression option parsed" where
  "parse_string_literal p = Some (Some (ast_StringLiteral (literal (current_token p))), p)"

text \<open>
  \<^verbatim>\<open>int(literal)\<close> of a string of decimal digits; \<^verbatim>\<open>None\<close> is the
  \<^verbatim>\<open>ValueError\<close>. The lexer makes \<^verbatim>\<open>INT\<close> tokens of ASCII digits only. From
  version 3.11 on, CPython also raises \<^verbatim>\<open>ValueError\<close> for more than 4300 digits;
  that limit of the interpreter is not part of the model.
\<close>

definition int_of_literal :: "string \<Rightarrow> int option" where
  "int_of_literal s =
     (if s \<noteq> [] \<and> list_all (\<lambda>c. is_number [c]) s
      then Some (foldl (\<lambda>acc c. 10 * acc + (int (of_char c) - 48)) 0 s)
      else None)"

definition parse_integer :: "Parser \<Rightarrow> expression option parsed" where
  "parse_integer p =
     (case int_of_literal (literal (current_token p)) of
        Some v \<Rightarrow> Some (Some (ast_Integer (Some v)), p)
      | None \<Rightarrow>
          Some (None, p\<lparr>errors := errors p @ [''Is not an integer: '' @ str_Token (current_token p)]\<rparr>))"

definition parse_identifier :: "Parser \<Rightarrow> expression option parsed" where
  "parse_identifier p = Some (Some (ast_Identifier (literal (current_token p))), p)"

definition parse_boolean :: "Parser \<Rightarrow> expression option parsed" where
  "parse_boolean p =
     Some (Some (ast_Boolean (Some (token_type (current_token p) = TT_TRUE))), p)"

fun parse_block_loop ::
  "nat \<Rightarrow> expression_parser \<Rightarrow> statement list \<Rightarrow> Parser \<Rightarrow> statement list parsed" where
  "parse_block_loop 0 pe statements p = None"
| "parse_block_loop (Suc n) pe statements p =
     (if token_type (current_token p) \<noteq> TT_RBRACE \<and> token_type (current_token p) \<noteq> TT_EOF then
        (case parse_statement pe p of
           None \<Rightarrow> None
         | Some (None, p1) \<Rightarrow> parse_block_loop n pe statements (advance_tokens p1)
         | Some (Some statement, p1) \<Rightarrow>
             parse_block_loop n pe (statements @ [statement]) (advance_tokens p1))
      else Some (statements, p))"

definition parse_block :: "nat \<Rightarrow> expression_parser \<Rightarrow> Parser \<Rightarrow> statement list parsed" where
  "parse_block n pe p = parse_block_loop n pe [] (advance_tokens p)"

definition parse_grouped_expression :: "expression_parser \<Rightarrow> Parser \<Rightarrow> expression option parsed" where
  "parse_grouped_expression pe p =
     (case pe P_LOWEST (advance_tokens p) of
        None \<Rightarrow> None
      | Some (e, p1) \<Rightarrow>
          (let (ok, p2) = expected_token TT_RPAREN p1 in
           if \<not> ok then Some (None, p2) else Some (e, p2)))"

definition parse_if :: "nat \<Rightarrow> expression_parser \<Rightarrow> Parser \<Rightarrow> expression option parsed" where
  "parse_if n pe p =
     (let (ok1, p1) = expected_token TT_LPAREN p in
      if \<not> ok1 then Some (None, p1)
      else
        (case pe P_LOWEST (advance_tokens p1) of
           None \<Rightarrow> None
         | Some (condition, p2) \<Rightarrow>
             (let (ok2, p3) = expected_token TT_RPAREN p2 in
              if \<not> ok2 then Some (None, p3)
              else
                (let (ok3, p4) = expected_token TT_LBRACE p3 in
                 if \<not> ok3 then Some (None, p4)
                 else
                   (case parse_block n pe p4 of
                      None \<Rightarrow> None
                    | Some (consequence, p5) \<Rightarrow>
                        (if token_type (peek_token p5) = TT_ELSE then
                           (let (ok4, p6) = expected_token TT_LBRACE (advance_tokens p5) in
                            if \<not> ok4 then Some (None, p6)
                            else
                              (case parse_block n pe p6 of
                                 None \<Rightarrow> None
                               | Some (alternative, p7) \<Rightarrow>
                                   Some (Some (ast_If condition (Some consequence) (Some alternative)), p7)))
                         else Some (Some (ast_If condition (Some consequence) None), p5)))))))"

fun parse_func_params_loop :: "nat \<Rightarrow> string list \<Rightarrow> Parser \<Rightarrow> string list parsed" where
  "parse_func_params_loop 0 params p = None"
| "parse_func_params_loop (Suc n) params p =
     (if token_type (peek_token p) = TT_COMMA \<and> token_type (peek_token p) \<noteq> TT_EOF then
        (let p1 = advance_tokens (advance_tokens p)
         in parse_func_params_loop n (params @ [literal (current_token p1)]) p1)
      else Some (params, p))"

definition parse_func_params :: "nat \<Rightarrow> Parser \<Rightarrow> string list parsed" where
  "parse_func_params n p =
     (if token_type (peek_token p) = TT_RPAREN then Some ([], advance_tokens p)
      else
        (let p1 = advance_tokens p in
         case parse_func_params_loop n [literal (current_token p1)] p1 of
           None \<Rightarrow> None
         | Some (params, p2) \<Rightarrow>
             (let (ok, p3) = expected_token TT_RPAREN p2 in
              if \<not> ok then Some ([], p3) else Some (params, p3))))"

definition parse_function :: "nat \<Rightarrow> expression_parser \<Rightarrow> Parser \<Rightarrow> expression option parsed" where
  "parse_function n pe p =
     (let (name, p1) =
            (if token_type (peek_token p) = TT_IDENT
             then (let q = advance_tokens p in (Some (literal (current_token q)), q))
             else (None, p));
          (ok1, p2) = expected_token TT_LPAREN p1 in
      if \<not> ok1 then Some (None, p2)
      else
        (case parse_func_params n p2 of
           None \<Rightarrow> None
         | Some (params, p3) \<Rightarrow>
             (let (ok2, p4) = expected_token TT_LBRACE p3 in
              if \<not> ok2 then Some (None, p4)
              else
                (case parse_block n pe p4 of
                   None \<Rightarrow> None
                 | Some (body, p5) \<Rightarrow> Some (Some (ast_Function params (Some body) name), p5)))))"

definition parse_prefix_expression :: "expression_parser \<Rightarrow> Parser \<Rightarrow> expression option parsed" where
  "parse_prefix_expression pe p =
     (let oper = literal (current_token p) in
      case pe P_PREFIX (advance_tokens p) of
        None \<Rightarrow> None
      | Some (right, p1) \<Rightarrow> Some (Some (ast_Prefix oper right), p1))"

definition parse_infix_expression :: "expression_parser \<Rightarrow> expression \<Rightarrow> Parser \<Rightarrow> expression parsed" where
  "parse_infix_expression pe left p =
     (let oper = literal (current_token p);
          precedence = current_precedence p in
      case pe precedence (advance_tokens p) of
        None \<Rightarrow> None
      | Some (right, p1) \<Rightarrow> Some (ast_Infix left oper right, p1))"

text \<open>
  The loop of \<^verbatim>\<open>_parse_call_args\<close>, entered after the first \<^verbatim>\<open>_advance_tokens\<close>.
  An expression object is always true in \<^verbatim>\<open>if expr := ...\<close>; \<^verbatim>\<open>None\<close> is not.
\<close>

fun parse_call_args_loop ::
  "nat \<Rightarrow> expression_parser \<Rightarrow> expression list \<Rightarrow> Parser \<Rightarrow> expression list parsed" where
  "parse_call_args_loop 0 pe expr_list p = None"
| "parse_call_args_loop (Suc n) pe expr_list p =
     (case pe P_LOWEST p of
        None \<Rightarrow> None
      | Some (expr, p1) \<Rightarrow>
          (let expr_list1 = (case expr of Some e \<Rightarrow> expr_list @ [e] | None \<Rightarrow> expr_list) in
           if token_type (peek_token p1) = TT_COMMA
           then parse_call_args_loop n pe expr_list1 (advance_tokens (advance_tokens p1))
           else Some (expr_list1, p1)))"

definition parse_call_args :: "nat \<Rightarrow> expression_parser \<Rightarrow> Parser \<Rightarrow> expression list option parsed" where
  "parse_call_args n pe p =
     (if token_type (peek_token p) = TT_RPAREN then Some (Some [], advance_tokens p)
      else
        (case parse_call_args_loop n pe [] (advance_tokens p) of
           None \<Rightarrow> None
         | Some (expr_list, p1) \<Rightarrow>
             (let (ok, p2) = expected_token TT_RPAREN p1 in
              if \<not> ok then Some (None, p2) else Some (Some expr_list, p2))))"

definition parse_call :: "nat \<Rightarrow> expression_parser \<Rightarrow> expression \<Rightarrow> Parser \<Rightarrow> expression parsed" where
  "parse_call n pe func p =
     (case parse_call_args n pe p of
        None \<Rightarrow> None
      | Some (args, p1) \<Rightarrow> Some (ast_Call func args, p1))"

text \<open>\<^verbatim>\<open>_register_prefix_fns\<close> and \<^verbatim>\<open>_register_infix_fns\<close>.\<close>

definition prefix_parse_fns ::
  "nat \<Rightarrow> expression_parser \<Rightarrow> TokenType \<rightharpoonup> (Parser \<Rightarrow> expression option parsed)" where
  "prefix_parse_fns n pe =
     [TT_TRUE \<mapsto> parse_boolean,
      TT_FALSE \<mapsto> parse_boolean,
      TT_IDENT \<mapsto> parse_identifier,
      TT_INT \<mapsto> parse_integer,
      TT_MINUS \<mapsto> parse_prefix_expression pe,
      TT_NEGATION \<mapsto> parse_prefix_expression pe,
      TT_LPAREN \<mapsto> parse_grouped_expression pe,
      TT_IF \<mapsto> parse_if n pe,
      TT_ELSE \<mapsto> parse_if n pe,
      TT_FUNCTION \<mapsto> parse_function n pe,
      TT_STRING \<mapsto> parse_string_literal]"

definition infix_parse_fns ::
  "nat \<Rightarrow> expression_parser \<Rightarrow> TokenType \<rightharpoonup> (expression \<Rightarrow> Parser \<Rightarrow> expression parsed)" where
  "infix_parse_fns n pe =
     [TT_ASSIGN \<mapsto> parse_infix_expression pe,
      TT_PLUS \<mapsto> parse_infix_expression pe,
      TT_MINUS \<mapsto> parse_infix_expression pe,
      TT_MULTIPLICATION \<mapsto> parse_infix_expression pe,
      TT_DIVISION \<mapsto> parse_infix_expression pe,
      TT_EQUALS \<mapsto> parse_infix_expression pe,
      TT_NOT_EQUALS \<mapsto> parse_infix_expression pe,
      TT_LT \<mapsto> parse_infix_expression pe,
      TT_GT \<mapsto> parse_infix_expression pe,
      TT_LE \<mapsto> parse_infix_expression pe,
      TT_GE \<mapsto> parse_infix_expression pe,
      TT_AND \<mapsto> parse_infix_expression pe,
      TT_OR \<mapsto> parse_infix_expression pe,
      TT_XOR \<mapsto> parse_infix_expression pe,
      TT_LPAREN \<mapsto> parse_call n pe]"

text \<open>
  The \<^verbatim>\<open>while\<close> loop of \<^verbatim>\<open>_parse_expression\<close>. Its body is a \<^verbatim>\<open>try\<close> whose
  handler returns \<^verbatim>\<open>left_expression\<close>: a token type without infix function
  raises \<^verbatim>\<open>KeyError\<close> before the tokens advance, and a \<^verbatim>\<open>left_expression\<close> that is
  \<^verbatim>\<open>None\<close> fails the assertion after they have advanced.
\<close>

fun parse_expression_loop ::
  "nat \<Rightarrow> expression_parser \<Rightarrow> Precedence \<Rightarrow> expression option \<Rightarrow> Parser
     \<Rightarrow> expression option parsed" where
  "parse_expression_loop 0 pe precedence left_expression p = None"
| "parse_expression_loop (Suc n) pe precedence left_expression p =
     (if token_type (peek_token p) \<noteq> TT_SEMICOLON
         \<and> precedence_value precedence < precedence_value (peek_precedence p) then
        (case infix_parse_fns n pe (token_type (peek_token p)) of
           None \<Rightarrow> Some (left_expression, p)
         | Some infix_parse_fn \<Rightarrow>
             (let p1 = advance_tokens p in
              case left_expression of
                None \<Rightarrow> Some (None, p1)
              | Some left \<Rightarrow>
                  (case infix_parse_fn left p1 of
                     None \<Rightarrow> None
                   | Some (e, p2) \<Rightarrow> parse_expression_loop n pe precedence (Some e) p2)))
      else Some (left_expression, p))"

fun parse_expression :: "nat \<Rightarrow> Precedence \<Rightarrow> Parser \<Rightarrow> expression option parsed" where
  "parse_expression 0 precedence p = None"
| "parse_expression (Suc n) precedence p =
     (case prefix_parse_fns n (parse_expression n) (token_type (current_token p)) of
        None \<Rightarrow>
          Some (None, p\<lparr>errors := errors p @
                  [''No function found to parse: '' @ literal (current_token p)]\<rparr>)
      | Some prefix_parse_fn \<Rightarrow>
          (case prefix_parse_fn p of
             None \<Rightarrow> None
           | Some (left_expression, p1) \<Rightarrow>
               parse_expression_loop n (parse_expression n) precedence left_expression p1))"

fun parse_program_loop :: "nat \<Rightarrow> statement list \<Rightarrow> Parser \<Rightarrow> statement list parsed" where
  "parse_program_loop 0 statements p = None"
| "parse_program_loop (Suc n) statements p =
     (if token_type (current_token p) \<noteq> TT_EOF then
        (case parse_statement (parse_expression n) p of
           None \<Rightarrow> None
         | Some (None, p1) \<Rightarrow> parse_program_loop n statements (advance_tokens p1)
         | Some (Some statement, p1) \<Rightarrow>
             parse_program_loop n (statements @ [statement]) (advance_tokens p1))
      else Some (statements, p))"

text \<open>\<^verbatim>\<open>parse_program\<close>: the statements of the \<^verbatim>\<open>Program\<close>, and the parser with its errors.\<close>

definition parse_program :: "nat \<Rightarrow> Parser \<Rightarrow> statement list parsed" where
  "parse_program n p = parse_program_loop n [] p"

section \<open>Properties of the evaluator\<close>

lemma same_object_obj_type: "same_object x y \<Longrightarrow> obj_type x = obj_type y"
  by (cases x; cases y) simp_all


text \<open>
  Operands of different types, other than a string on the left of an integer:
  \<^verbatim>\<open>==\<close> and \<^verbatim>\<open>!=\<close> are taken before the types are compared.
\<close>

lemma evaluate_infix_expr_mixed:
  assumes "obj_type lv \<noteq> obj_type rv"
    and "\<not> (obj_type lv = OT_STRING \<and> obj_type rv = OT_INTEGER)"
  shows "evaluate_infix_expr oper lv rv h =
     (if oper = ''=='' then Inr (FALSE, h)
      else if oper = ''!='' then Inr (TRUE, h)
      else Inr (Error (next_id h)
                  (''Type mismatch: '' @ type_name (obj_type lv) @ '' '' @ oper @ '' ''
                     @ type_name (obj_type rv)),
                h\<lparr>next_id := Suc (next_id h)\<rparr>))"
proof -
  have "\<not> same_object lv rv"
    using assms(1) same_object_obj_type by blast
  with assms show ?thesis
    by (auto simp: evaluate_infix_expr_def to_boolean_object_def new_Error_def TYPE_MISMATCH_def)
qed

subsection \<open>Integer division\<close>

text \<open>
  C8. When the operands of an infix \<^verbatim>\<open>/\<close> evaluate to the integers \<open>a\<close> and \<open>b\<close>
  and \<open>b\<close> is not zero, the expression evaluates to the integer floor of the exact
  quotient \<open>a / b\<close>, that is, the quotient rounded toward negative infinity.
  At \<open>-7 / 2\<close> this is \<open>-4\<close>, not the truncated \<open>-3\<close>.
\<close>

theorem C8_floor_division:
  assumes "evaluate n (Expr l) env h = Inr (Some (Integer a), h1)"
    and "evaluate n (Expr r) env h1 = Inr (Some (Integer b), h2)"
    and "b \<noteq> 0"
  shows "evaluate (Suc n) (Expr (ast_Infix l ''/'' (Some r))) env h =
           Inr (Some (Integer \<lfloor>real_of_int a / real_of_int b\<rfloor>), h2)"
  using assms by (simp add: evaluate_infix_expr_def floor_divide_of_int_eq)

theorem C8_floor_division_witness:
  "evaluate 1 (Expr (ast_Integer (Some (- 7)))) 0 empty_heap = Inr (Some (Integer (- 7)), empty_heap)
   \<and> evaluate 1 (Expr (ast_Integer (Some 2))) 0 empty_heap = Inr (Some (Integer 2), empty_heap)
   \<and> (2::int) \<noteq> 0
   \<and> evaluate (Suc 1)
        (Expr (ast_Infix (ast_Integer (Some (- 7))) ''/'' (Some (ast_Integer (Some 2))))) 0 empty_heap
       = Inr (Some (Integer (- 4)), empty_heap)
   \<and> Integer (- 4) \<noteq> Integer (- 3)"
proof -
  have l: "evaluate 1 (Expr (ast_Integer (Some (- 7)))) 0 empty_heap
             = Inr (Some (Integer (- 7)), empty_heap)"
    by (simp add: eval_nat_numeral)
  have r: "evaluate 1 (Expr (ast_Integer (Some 2))) 0 empty_heap
             = Inr (Some (Integer 2), empty_heap)"
    by (simp add: eval_nat_numeral)
  have nz: "(2::int) \<noteq> 0" by simp
  have "\<lfloor>real_of_int (- 7) / real_of_int 2\<rfloor> = (- 4 :: int)"
    by (simp add: floor_divide_of_int_eq[of "-7" 2, simplified])
  with C8_floor_division [OF l r nz] l r show ?thesis by simp
qed

subsection \<open>Truthiness\<close>



subsection \<open>Infix dispatch outside the integer and string rules\<close>

text \<open>
  C4, as the code has it. Let the operands of an infix expression evaluate to
  two objects that are not both integers and not a string on the left of a
  string or an integer. Then \<^verbatim>\<open>==\<close> yields \<^verbatim>\<open>TRUE\<close> exactly when the two are the
  same object, and \<^verbatim>\<open>!=\<close> exactly when they are not, whatever their types; every
  other operator yields the error \<^verbatim>\<open>Type mismatch: <L> <op> <R>\<close> when the types
  differ and \<^verbatim>\<open>Invalid operation: <L> <op> <R>\<close> when they are the same. Objects
  of different types are never the same object, so for them \<^verbatim>\<open>==\<close> yields
  \<^verbatim>\<open>FALSE\<close> and \<^verbatim>\<open>!=\<close> yields \<^verbatim>\<open>TRUE\<close>. Two booleans are the same object exactly
  when they have the same value, \<^verbatim>\<open>NULL\<close> is one object, and two \<^verbatim>\<open>Error\<close>,
  \<^verbatim>\<open>Return\<close> or \<^verbatim>\<open>Function\<close> objects are the same exactly when they come from the
  same allocation.
\<close>

theorem C4_type_mismatch_amended:
  assumes "evaluate n (Expr l) env h = Inr (Some lv, h1)"
    and "evaluate n (Expr r) env h1 = Inr (Some rv, h2)"
    and "\<not> (obj_type lv = OT_INTEGER \<and> obj_type rv = OT_INTEGER)"
    and "\<not> (obj_type lv = OT_STRING \<and> (obj_type rv = OT_STRING \<or> obj_type rv = OT_INTEGER))"
  shows "evaluate (Suc n) (Expr (ast_Infix l oper (Some r))) env h =
     (if oper = ''=='' then Inr (Some (to_boolean_object (same_object lv rv)), h2)
      else if oper = ''!='' then Inr (Some (to_boolean_object (\<not> same_object lv rv)), h2)
      else if obj_type lv \<noteq> obj_type rv then
        Inr (Some (Error (next_id h2)
                  (''Type mismatch: '' @ type_name (obj_type lv) @ '' '' @ oper @ '' ''
                     @ type_name (obj_type rv))),
             h2\<lparr>next_id := Suc (next_id h2)\<rparr>)
      else
        Inr (Some (Error (next_id h2)
                  (''Invalid operation: '' @ type_name (obj_type lv) @ '' '' @ oper @ '' ''
                     @ type_name (obj_type rv))),
             h2\<lparr>next_id := Suc (next_id h2)\<rparr>))
   \<and> (obj_type lv \<noteq> obj_type rv \<longrightarrow> \<not> same_object lv rv)
   \<and> same_object (Boolean a) (Boolean b) = (a = b)
   \<and> same_object NULL NULL
   \<and> same_object (Error i m) (Error j m') = (i = j)
   \<and> same_object (Return i v) (Return j v') = (i = j)
   \<and> same_object (Function i ps body fenv nm) (Function j ps' body' fenv' nm') = (i = j)"
proof -
  have ev: "evaluate_infix_expr oper lv rv h2 =
     (if oper = ''=='' then Inr (to_boolean_object (same_object lv rv), h2)
      else if oper = ''!='' then Inr (to_boolean_object (\<not> same_object lv rv), h2)
      else if obj_type lv \<noteq> obj_type rv then
        Inr (new_Error (TYPE_MISMATCH (type_name (obj_type lv)) oper (type_name (obj_type rv))) h2)
      else
        Inr (new_Error (UNKNOWN_INFIX_OPER (type_name (obj_type lv)) oper (type_name (obj_type rv))) h2))"
    using assms(3,4) unfolding evaluate_infix_expr_def by (simp only: if_False simp_thms)
  have "evaluate (Suc n) (Expr (ast_Infix l oper (Some r))) env h =
     (case evaluate_infix_expr oper lv rv h2 of
        Inl x \<Rightarrow> Inl x
      | Inr (res, h3) \<Rightarrow> Inr (Some res, h3))"
    using assms(1,2) by simp
  then have main: "evaluate (Suc n) (Expr (ast_Infix l oper (Some r))) env h =
     (if oper = ''=='' then Inr (Some (to_boolean_object (same_object lv rv)), h2)
      else if oper = ''!='' then Inr (Some (to_boolean_object (\<not> same_object lv rv)), h2)
      else if obj_type lv \<noteq> obj_type rv then
        Inr (Some (Error (next_id h2)
                  (''Type mismatch: '' @ type_name (obj_type lv) @ '' '' @ oper @ '' ''
                     @ type_name (obj_type rv))),
             h2\<lparr>next_id := Suc (next_id h2)\<rparr>)
      else
        Inr (Some (Error (next_id h2)
                  (''Invalid operation: '' @ type_name (obj_type lv) @ '' '' @ oper @ '' ''
                     @ type_name (obj_type rv))),
             h2\<lparr>next_id := Suc (next_id h2)\<rparr>))"
    by (simp add: ev new_Error_def TYPE_MISMATCH_def UNKNOWN_INFIX_OPER_def)
  have diff: "obj_type lv \<noteq> obj_type rv \<longrightarrow> \<not> same_object lv rv"
    using same_object_obj_type by blast
  from main diff show ?thesis by simp
qed

text \<open>
  Instances: \<^verbatim>\<open>true == true\<close> is \<^verbatim>\<open>TRUE\<close> and \<^verbatim>\<open>true == false\<close> is \<^verbatim>\<open>FALSE\<close>;
  \<^verbatim>\<open>true + true\<close> is an invalid operation and \<^verbatim>\<open>true + 1\<close> a type mismatch;
  and two function literals, equal in every field but the allocation, are not
  the same object.
\<close>

theorem C4_type_mismatch_amended_witness:
  "evaluate 1 (Expr (ast_Boolean (Some True))) 0 empty_heap = Inr (Some TRUE, empty_heap)
   \<and> evaluate 1 (Expr (ast_Boolean (Some False))) 0 empty_heap = Inr (Some FALSE, empty_heap)
   \<and> evaluate 1 (Expr (ast_Integer (Some 1))) 0 empty_heap = Inr (Some (Integer 1), empty_heap)
   \<and> \<not> (obj_type TRUE = OT_INTEGER \<and> obj_type TRUE = OT_INTEGER)
   \<and> \<not> (obj_type TRUE = OT_STRING \<and> (obj_type (Integer 1) = OT_STRING \<or> obj_type (Integer 1) = OT_INTEGER))
   \<and> evaluate (Suc 1) (Expr (ast_Infix (ast_Boolean (Some True)) ''=='' (Some (ast_Boolean (Some True))))) 0 empty_heap
       = Inr (Some TRUE, empty_heap)
   \<and> evaluate (Suc 1) (Expr (ast_Infix (ast_Boolean (Some True)) ''!='' (Some (ast_Boolean (Some True))))) 0 empty_heap
       = Inr (Some FALSE, empty_heap)
   \<and> evaluate (Suc 1) (Expr (ast_Infix (ast_Boolean (Some True)) ''=='' (Some (ast_Boolean (Some False))))) 0 empty_heap
       = Inr (Some FALSE, empty_heap)
   \<and> evaluate (Suc 1) (Expr (ast_Infix (ast_Boolean (Some True)) ''+'' (Some (ast_Boolean (Some True))))) 0 empty_heap
       = Inr (Some (Error 0 ''Invalid operation: BOOLEAN + BOOLEAN''), empty_heap\<lparr>next_id := 1\<rparr>)
   \<and> evaluate (Suc 1) (Expr (ast_Infix (ast_Boolean (Some True)) ''+'' (Some (ast_Integer (Some 1))))) 0 empty_heap
       = Inr (Some (Error 0 ''Type mismatch: BOOLEAN + INTEGER''), empty_heap\<lparr>next_id := 1\<rparr>)
   \<and> evaluate (Suc 1) (Expr (ast_Infix (ast_Boolean (Some True)) ''!='' (Some (ast_Integer (Some 1))))) 0 empty_heap
       = Inr (Some TRUE, empty_heap)
   \<and> evaluate 1 (Expr (ast_Function [] (Some []) None)) 0 empty_heap
       = Inr (Some (Function 0 [] [] 0 []), empty_heap\<lparr>next_id := 1\<rparr>)
   \<and> evaluate 1 (Expr (ast_Function [] (Some []) None)) 0 (empty_heap\<lparr>next_id := 1\<rparr>)
       = Inr (Some (Function 1 [] [] 0 []), empty_heap\<lparr>next_id := 2\<rparr>)
   \<and> evaluate (Suc 1) (Expr (ast_Infix (ast_Function [] (Some []) None) ''=='' (Some (ast_Function [] (Some []) None)))) 0 empty_heap
       = Inr (Some FALSE, empty_heap\<lparr>next_id := 2\<rparr>)"
proof -
  have t: "evaluate 1 (Expr (ast_Boolean (Some True))) 0 empty_heap = Inr (Some TRUE, empty_heap)"
    and f: "evaluate 1 (Expr (ast_Boolean (Some False))) 0 empty_heap = Inr (Some FALSE, empty_heap)"
    by (simp_all add: to_boolean_object_def)
  have i: "evaluate 1 (Expr (ast_Integer (Some 1))) 0 empty_heap = Inr (Some (Integer 1), empty_heap)"
    by simp
  have f0: "evaluate 1 (Expr (ast_Function [] (Some []) None)) 0 empty_heap
       = Inr (Some (Function 0 [] [] 0 []), empty_heap\<lparr>next_id := 1\<rparr>)"
    and f1: "evaluate 1 (Expr (ast_Function [] (Some []) None)) 0 (empty_heap\<lparr>next_id := 1\<rparr>)
       = Inr (Some (Function 1 [] [] 0 []), empty_heap\<lparr>next_id := 2\<rparr>)"
    by (simp_all add: new_Function_def empty_heap_def)
  have bb1: "\<not> (obj_type TRUE = OT_INTEGER \<and> obj_type TRUE = OT_INTEGER)"
    and bb1': "\<not> (obj_type TRUE = OT_INTEGER \<and> obj_type FALSE = OT_INTEGER)"
    and bb2: "\<not> (obj_type TRUE = OT_STRING \<and> (obj_type TRUE = OT_STRING \<or> obj_type TRUE = OT_INTEGER))"
    and bb2': "\<not> (obj_type TRUE = OT_STRING \<and> (obj_type FALSE = OT_STRING \<or> obj_type FALSE = OT_INTEGER))"
    and bi1: "\<not> (obj_type TRUE = OT_INTEGER \<and> obj_type (Integer 1) = OT_INTEGER)"
    and bi2: "\<not> (obj_type TRUE = OT_STRING \<and> (obj_type (Integer 1) = OT_STRING \<or> obj_type (Integer 1) = OT_INTEGER))"
    and ff1: "\<not> (obj_type (Function 0 [] [] 0 []) = OT_INTEGER \<and> obj_type (Function 1 [] [] 0 []) = OT_INTEGER)"
    and ff2: "\<not> (obj_type (Function 0 [] [] 0 []) = OT_STRING
                 \<and> (obj_type (Function 1 [] [] 0 []) = OT_STRING \<or> obj_type (Function 1 [] [] 0 []) = OT_INTEGER))"
    by simp_all
  have n: "next_id empty_heap = 0" by (simp add: empty_heap_def)
  note TT = C4_type_mismatch_amended [OF t t bb1 bb2]
  note TF = C4_type_mismatch_amended [OF t f bb1' bb2']
  note TI = C4_type_mismatch_amended [OF t i bi1 bi2]
  note FF = C4_type_mismatch_amended [OF f0 f1 ff1 ff2]
  from TT [of "''==''"] have 1: "evaluate (Suc 1) (Expr (ast_Infix (ast_Boolean (Some True)) ''=='' (Some (ast_Boolean (Some True))))) 0 empty_heap
       = Inr (Some TRUE, empty_heap)" by (simp add: to_boolean_object_def)
  from TT [of "''!=''"] have 2: "evaluate (Suc 1) (Expr (ast_Infix (ast_Boolean (Some True)) ''!='' (Some (ast_Boolean (Some True))))) 0 empty_heap
       = Inr (Some FALSE, empty_heap)" by (simp add: to_boolean_object_def)
  from TF [of "''==''"] have 3: "evaluate (Suc 1) (Expr (ast_Infix (ast_Boolean (Some True)) ''=='' (Some (ast_Boolean (Some False))))) 0 empty_heap
       = Inr (Some FALSE, empty_heap)" by (simp add: to_boolean_object_def)
  from TT [of "''+''"] n have 4: "evaluate (Suc 1) (Expr (ast_Infix (ast_Boolean (Some True)) ''+'' (Some (ast_Boolean (Some True))))) 0 empty_heap
       = Inr (Some (Error 0 ''Invalid operation: BOOLEAN + BOOLEAN''), empty_heap\<lparr>next_id := 1\<rparr>)" by simp
  from TI [of "''+''"] n have 5: "evaluate (Suc 1) (Expr (ast_Infix (ast_Boolean (Some True)) ''+'' (Some (ast_Integer (Some 1))))) 0 empty_heap
       = Inr (Some (Error 0 ''Type mismatch: BOOLEAN + INTEGER''), empty_heap\<lparr>next_id := 1\<rparr>)" by simp
  from TI [of "''!=''"] have 6: "evaluate (Suc 1) (Expr (ast_Infix (ast_Boolean (Some True)) ''!='' (Some (ast_Integer (Some 1))))) 0 empty_heap
       = Inr (Some TRUE, empty_heap)" by (simp add: to_boolean_object_def)
  from FF [of "''==''"] have 7: "evaluate (Suc 1) (Expr (ast_Infix (ast_Function [] (Some []) None) ''=='' (Some (ast_Function [] (Some []) None)))) 0 empty_heap
       = Inr (Some FALSE, empty_heap\<lparr>next_id := 2\<rparr>)" by (simp add: to_boolean_object_def)
  from t f i bb1 bi2 1 2 3 4 5 6 f0 f1 7 show ?thesis by blast
qed

text \<open>
  C4 as stated fails at \<^verbatim>\<open>true == 1\<close>: a \<^verbatim>\<open>BOOLEAN\<close> compared with an \<^verbatim>\<open>INTEGER\<close>
  evaluates to \<^verbatim>\<open>FALSE\<close>, not to an \<^verbatim>\<open>Error\<close>.
\<close>

theorem C4_type_mismatch_counterexample:
  "evaluate 2 (Expr (ast_Infix (ast_Boolean (Some True)) ''=='' (Some (ast_Integer (Some 1))))) 0 empty_heap
     = Inr (Some FALSE, empty_heap)
   \<and> obj_type FALSE \<noteq> OT_ERROR"
  by (simp add: eval_nat_numeral to_boolean_object_def evaluate_infix_expr_def)

subsection \<open>Errors as operands\<close>

text \<open>
  C10. An \<^verbatim>\<open>Error\<close> that the left operand of an infix expression evaluates to is
  not returned as the result of the expression: it is an operand like any other.
  When the right operand evaluates to an object that is not an \<^verbatim>\<open>Error\<close>, the
  result is a new error \<^verbatim>\<open>Type mismatch: ERROR <op> <R>\<close>, whatever the message of
  the operand was; for \<^verbatim>\<open>==\<close> and \<^verbatim>\<open>!=\<close> the two objects are compared by
  identity, which gives \<^verbatim>\<open>FALSE\<close> and \<^verbatim>\<open>TRUE\<close>.
\<close>

theorem C10_error_operand:
  assumes "evaluate n (Expr l) env h = Inr (Some (Error i m), h1)"
    and "evaluate n (Expr r) env h1 = Inr (Some rv, h2)"
    and "obj_type rv \<noteq> OT_ERROR"
  shows "evaluate (Suc n) (Expr (ast_Infix l oper (Some r))) env h =
     (if oper = ''=='' then Inr (Some (to_boolean_object (same_object (Error i m) rv)), h2)
      else if oper = ''!='' then Inr (Some (to_boolean_object (\<not> same_object (Error i m) rv)), h2)
      else Inr (Some (Error (next_id h2) (''Type mismatch: ERROR '' @ oper @ '' '' @ type_name (obj_type rv))),
                h2\<lparr>next_id := Suc (next_id h2)\<rparr>))"
proof -
  have ty: "obj_type (Error i m) \<noteq> obj_type rv"
    using assms(3) by simp
  have ns: "\<not> same_object (Error i m) rv"
    using ty same_object_obj_type by blast
  have "\<not> (obj_type (Error i m) = OT_STRING \<and> obj_type rv = OT_INTEGER)"
    by simp
  from evaluate_infix_expr_mixed [OF ty this] assms(1,2) ns show ?thesis
    by (simp add: to_boolean_object_def)
qed

theorem C10_error_operand_witness:
  "evaluate 1 (Expr (ast_Identifier ''foo'')) 0 empty_heap
     = Inr (Some (Error 0 ''Identifier not found: foo''), empty_heap\<lparr>next_id := 1\<rparr>)
   \<and> evaluate 1 (Expr (ast_Integer (Some 1))) 0 (empty_heap\<lparr>next_id := 1\<rparr>)
     = Inr (Some (Integer 1), empty_heap\<lparr>next_id := 1\<rparr>)
   \<and> obj_type (Integer 1) \<noteq> OT_ERROR
   \<and> evaluate (Suc 1) (Expr (ast_Infix (ast_Identifier ''foo'') ''+'' (Some (ast_Integer (Some 1))))) 0 empty_heap
     = Inr (Some (Error 1 ''Type mismatch: ERROR + INTEGER''), empty_heap\<lparr>next_id := 2\<rparr>)
   \<and> evaluate (Suc 1) (Expr (ast_Infix (ast_Identifier ''foo'') ''=='' (Some (ast_Integer (Some 1))))) 0 empty_heap
     = Inr (Some FALSE, empty_heap\<lparr>next_id := 1\<rparr>)"
proof -
  have l: "evaluate 1 (Expr (ast_Identifier ''foo'')) 0 empty_heap
     = Inr (Some (Error 0 ''Identifier not found: foo''), empty_heap\<lparr>next_id := 1\<rparr>)"
    by (simp add: empty_heap_def evaluate_identifier_def getitem.simps new_Error_def
        BUILTINS_def UNKNOWN_IDENT_def)
  have r: "evaluate 1 (Expr (ast_Integer (Some 1))) 0 (empty_heap\<lparr>next_id := 1\<rparr>)
     = Inr (Some (Integer 1), empty_heap\<lparr>next_id := 1\<rparr>)"
    by simp
  have t: "obj_type (Integer 1) \<noteq> OT_ERROR" by simp
  from C10_error_operand [OF l r t, of "''+''"] C10_error_operand [OF l r t, of "''==''"] l r t
  show ?thesis by (simp add: to_boolean_object_def empty_heap_def)
qed

subsection \<open>No short-circuit evaluation\<close>

text \<open>
  C7. For an infix \<^verbatim>\<open>&&\<close> or \<^verbatim>\<open>||\<close> whose left operand has been evaluated, to
  whatever value, the right operand is evaluated next, in the heap the left
  operand left behind, and only then is the operator applied to the two values:
  a failure of the right operand is the failure of the expression, and its
  effects on the heap are part of the result.
\<close>

theorem C7_no_short_circuit:
  assumes "oper = ''&&'' \<or> oper = ''||''"
    and "evaluate n (Expr l) env h = Inr (left, h1)"
  shows "evaluate (Suc n) (Expr (ast_Infix l oper (Some r))) env h =
     (case evaluate n (Expr r) env h1 of
        Inl x \<Rightarrow> Inl x
      | Inr (right, h2) \<Rightarrow>
          (case (left, right) of
             (Some lv, Some rv) \<Rightarrow>
               (case evaluate_infix_expr oper lv rv h2 of
                  Inl x \<Rightarrow> Inl x
                | Inr (res, h3) \<Rightarrow> Inr (Some res, h3))
           | _ \<Rightarrow> Inl AssertionError))"
  using assms(2) by simp

text \<open>
  An instance is \<^verbatim>\<open>false && function g() {1}\<close>: the left operand is \<^verbatim>\<open>FALSE\<close>, and
  still the function literal on the right is evaluated, which binds \<^verbatim>\<open>g\<close>.
\<close>

theorem C7_no_short_circuit_witness:
  "(''&&'' = ''&&'' \<or> ''&&'' = ''||'')
   \<and> evaluate 1 (Expr (ast_Boolean (Some False))) 0 empty_heap = Inr (Some FALSE, empty_heap)
   \<and> map_sum id (\<lambda>(res, h). (res, getitem (frames h) 0 ''g''))
        (evaluate (Suc 1)
          (Expr (ast_Infix (ast_Boolean (Some False)) ''&&''
             (Some (ast_Function [] (Some [ExpressionStatement (Some (ast_Integer (Some 1)))]) (Some ''g'')))))
          0 empty_heap)
     = Inr (Some (Error 1 ''Type mismatch: BOOLEAN && FUNCTION''),
            Some (Function 0 [] [ExpressionStatement (Some (ast_Integer (Some 1)))] 0 ''g''))
   \<and> getitem (frames empty_heap) 0 ''g'' = None"
proof -
  have o: "''&&'' = ''&&'' \<or> ''&&'' = ''||''" by simp
  have l: "evaluate 1 (Expr (ast_Boolean (Some False))) 0 empty_heap = Inr (Some FALSE, empty_heap)"
    by (simp add: to_boolean_object_def)
  from C7_no_short_circuit [OF o l] l show ?thesis
    by (simp add: empty_heap_def new_Function_def setitem_def evaluate_infix_expr_def
        new_Error_def TYPE_MISMATCH_def getitem.simps)
qed

subsection \<open>Native failures of the evaluator\<close>

text \<open>
  C1. The evaluator is not total on well-formed trees. The source \<^verbatim>\<open>1 / 0\<close>
  parses to a program whose evaluation raises \<^verbatim>\<open>ZeroDivisionError\<close>, and the
  source \<^verbatim>\<open>function (x) {x;}()\<close>, the call of a function with one parameter on
  no argument, to a program whose evaluation raises \<^verbatim>\<open>IndexError\<close>; neither
  returns an \<^verbatim>\<open>Error\<close> object.
\<close>

theorem C1_native_failures:
  "map_option fst (parse_program 5 (new_Parser (new_Lexer ''1 / 0'')))
     = Some [ExpressionStatement (Some
               (ast_Infix (ast_Integer (Some 1)) ''/'' (Some (ast_Integer (Some 0)))))]
   \<and> evaluate 4 (Program [ExpressionStatement (Some
       (ast_Infix (ast_Integer (Some 1)) ''/'' (Some (ast_Integer (Some 0)))))]) 0 empty_heap
     = Inl ZeroDivisionError
   \<and> map_option fst (parse_program 8 (new_Parser (new_Lexer ''function (x) {x;}()'')))
     = Some [ExpressionStatement (Some
       (ast_Call (ast_Function [''x''] (Some [ExpressionStatement (Some (ast_Identifier ''x''))]) None)
          (Some [])))]
   \<and> evaluate 4 (Program [ExpressionStatement (Some
       (ast_Call (ast_Function [''x''] (Some [ExpressionStatement (Some (ast_Identifier ''x''))]) None)
          (Some [])))]) 0 empty_heap
     = Inl IndexError"
proof -
  have p1: "map_option fst (parse_program 5 (new_Parser (new_Lexer ''1 / 0'')))
     = Some [ExpressionStatement (Some
               (ast_Infix (ast_Integer (Some 1)) ''/'' (Some (ast_Integer (Some 0)))))]"
    by code_simp
  have p2: "map_option fst (parse_program 8 (new_Parser (new_Lexer ''function (x) {x;}()'')))
     = Some [ExpressionStatement (Some
       (ast_Call (ast_Function [''x''] (Some [ExpressionStatement (Some (ast_Identifier ''x''))]) None)
          (Some [])))]"
    by code_simp
  have e1: "evaluate 4 (Program [ExpressionStatement (Some
       (ast_Infix (ast_Integer (Some 1)) ''/'' (Some (ast_Integer (Some 0)))))]) 0 empty_heap
     = Inl ZeroDivisionError"
    by (simp add: eval_nat_numeral evaluate_infix_expr_def)
  have e2: "evaluate 4 (Program [ExpressionStatement (Some
       (ast_Call (ast_Function [''x''] (Some [ExpressionStatement (Some (ast_Identifier ''x''))]) None)
          (Some [])))]) 0 empty_heap
     = Inl IndexError"
    by (simp add: eval_nat_numeral new_Function_def new_Environment_def)
  from p1 p2 e1 e2 show ?thesis by blast
qed

subsection \<open>Propagation of Return and Error\<close>

text \<open>
  The statements before the one that returns: run in order, each of them yields
  a result that is neither a \<^verbatim>\<open>Return\<close> nor an \<^verbatim>\<open>Error\<close> (or \<^verbatim>\<open>None\<close>). The
  result is the heap they leave behind.
\<close>

fun run_prefix :: "evaluator \<Rightarrow> statement list \<Rightarrow> nat \<Rightarrow> heap \<Rightarrow> heap option" where
  "run_prefix ev [] env h = Some h"
| "run_prefix ev (stmnt # stmnts) env h =
     (case ev (Stmt stmnt) env h of
        Inl x \<Rightarrow> None
      | Inr (None, h1) \<Rightarrow> run_prefix ev stmnts env h1
      | Inr (Some r, h1) \<Rightarrow>
          (if obj_type r = OT_RETURN \<or> obj_type r = OT_ERROR then None
           else run_prefix ev stmnts env h1))"

lemma evaluate_program_stop:
  assumes "run_prefix ev pre env h = Some h1"
    and "ev (Stmt s) env h1 = Inr (Some r, h2)"
    and "obj_type r = OT_RETURN \<or> obj_type r = OT_ERROR"
  shows "evaluate_program ev (pre @ s # post) res env h = Inr (Some (unwrap_return_value r), h2)"
  using assms
proof (induction pre arbitrary: res h)
  case Nil
  then show ?case by (cases r) auto
next
  case (Cons a pre)
  then show ?case
    by (auto split: sum.splits option.splits obj.splits if_splits)
qed

lemma evaluate_block_statements_stop:
  assumes "run_prefix ev pre env h = Some h1"
    and "ev (Stmt s) env h1 = Inr (Some r, h2)"
    and "obj_type r = OT_RETURN \<or> obj_type r = OT_ERROR"
  shows "evaluate_block_statements ev (pre @ s # post) res env h = Inr (Some r, h2)"
  using assms
proof (induction pre arbitrary: res h)
  case Nil
  then show ?case by auto
next
  case (Cons a pre)
  then show ?case
    by (auto split: sum.splits option.splits if_splits)
qed

text \<open>
  C2. In a sequence of statements, let the first statement whose result is a
  \<^verbatim>\<open>Return\<close> wrapper or an \<^verbatim>\<open>Error\<close> be \<open>s\<close>. If \<open>s\<close> evaluates to \<^verbatim>\<open>Return(v)\<close>, the
  sequence evaluated as a \<^verbatim>\<open>Program\<close> yields \<open>v\<close>, and evaluated as a \<^verbatim>\<open>Block\<close> it
  yields the wrapper itself. If \<open>s\<close> evaluates to an \<^verbatim>\<open>Error\<close>, both yield that
  \<^verbatim>\<open>Error\<close>. In both cases the heap is the one \<open>s\<close> left behind: no later statement
  is evaluated. Applying a user function whose body evaluates to \<^verbatim>\<open>Return(v)\<close>
  yields \<open>v\<close>.
\<close>

theorem C2_return_propagation:
  assumes "run_prefix (evaluate n) pre env h = Some h1"
  shows
   "(evaluate n (Stmt s) env h1 = Inr (Some (Return i v), h2) \<longrightarrow>
       evaluate (Suc n) (Program (pre @ s # post)) env h = Inr (Some v, h2)
     \<and> evaluate (Suc n) (Stmt (Block (pre @ s # post))) env h = Inr (Some (Return i v), h2))
  \<and> (evaluate n (Stmt s) env h1 = Inr (Some (Error i m), h2) \<longrightarrow>
       evaluate (Suc n) (Program (pre @ s # post)) env h = Inr (Some (Error i m), h2)
     \<and> evaluate (Suc n) (Stmt (Block (pre @ s # post))) env h = Inr (Some (Error i m), h2))
  \<and> (ext_func_env (Function j params body fenv nm) args hf = Inr (ext_env, h1')
       \<and> evaluate n (Stmt (Block body)) ext_env h1' = Inr (Some (Return i v), h2) \<longrightarrow>
       apply_func (evaluate n) (Function j params body fenv nm) args hf = Inr (v, h2))"
proof (intro conjI impI)
  assume a: "evaluate n (Stmt s) env h1 = Inr (Some (Return i v), h2)"
  show "evaluate (Suc n) (Program (pre @ s # post)) env h = Inr (Some v, h2)"
    using evaluate_program_stop [OF assms a] by simp
  show "evaluate (Suc n) (Stmt (Block (pre @ s # post))) env h = Inr (Some (Return i v), h2)"
    using evaluate_block_statements_stop [OF assms a] by simp
next
  assume a: "evaluate n (Stmt s) env h1 = Inr (Some (Error i m), h2)"
  show "evaluate (Suc n) (Program (pre @ s # post)) env h = Inr (Some (Error i m), h2)"
    using evaluate_program_stop [OF assms a] by simp
  show "evaluate (Suc n) (Stmt (Block (pre @ s # post))) env h = Inr (Some (Error i m), h2)"
    using evaluate_block_statements_stop [OF assms a] by simp
next
  assume "ext_func_env (Function j params body fenv nm) args hf = Inr (ext_env, h1')
       \<and> evaluate n (Stmt (Block body)) ext_env h1' = Inr (Some (Return i v), h2)"
  then show "apply_func (evaluate n) (Function j params body fenv nm) args hf = Inr (v, h2)"
    by simp
qed


theorem C2_return_propagation_witness:
  "run_prefix (evaluate 3) [ExpressionStatement (Some (ast_Integer (Some 9)))] 0 empty_heap = Some empty_heap
   \<and> evaluate 3 (Stmt (ReturnStatement (Some
        (ast_Infix (ast_Integer (Some 9)) ''*'' (Some (ast_Integer (Some 10))))))) 0 empty_heap
       = Inr (Some (Return 0 (Integer 90)), empty_heap\<lparr>next_id := 1\<rparr>)
   \<and> evaluate (Suc 3) (Program ([ExpressionStatement (Some (ast_Integer (Some 9)))]
         @ ReturnStatement (Some (ast_Infix (ast_Integer (Some 9)) ''*'' (Some (ast_Integer (Some 10)))))
         # [ExpressionStatement (Some (ast_Integer (Some 10)))])) 0 empty_heap
       = Inr (Some (Integer 90), empty_heap\<lparr>next_id := 1\<rparr>)
   \<and> evaluate (Suc 3) (Stmt (Block ([ExpressionStatement (Some (ast_Integer (Some 9)))]
         @ ReturnStatement (Some (ast_Infix (ast_Integer (Some 9)) ''*'' (Some (ast_Integer (Some 10)))))
         # [ExpressionStatement (Some (ast_Integer (Some 10)))]))) 0 empty_heap
       = Inr (Some (Return 0 (Integer 90)), empty_heap\<lparr>next_id := 1\<rparr>)
   \<and> evaluate 3 (Stmt (ExpressionStatement (Some (ast_Identifier ''foo'')))) 0 empty_heap
       = Inr (Some (Error 0 ''Identifier not found: foo''), empty_heap\<lparr>next_id := 1\<rparr>)
   \<and> evaluate (Suc 3) (Program ([ExpressionStatement (Some (ast_Integer (Some 9)))]
         @ ExpressionStatement (Some (ast_Identifier ''foo''))
         # [ExpressionStatement (Some (ast_Integer (Some 10)))])) 0 empty_heap
       = Inr (Some (Error 0 ''Identifier not found: foo''), empty_heap\<lparr>next_id := 1\<rparr>)
   \<and> evaluate (Suc 3) (Stmt (Block ([ExpressionStatement (Some (ast_Integer (Some 9)))]
         @ ExpressionStatement (Some (ast_Identifier ''foo''))
         # [ExpressionStatement (Some (ast_Integer (Some 10)))]))) 0 empty_heap
       = Inr (Some (Error 0 ''Identifier not found: foo''), empty_heap\<lparr>next_id := 1\<rparr>)
   \<and> ext_func_env (Function 0 [''x''] [ReturnStatement (Some (ast_Identifier ''x''))] 0 []) [Integer 5] empty_heap
       = Inr (1, setitem 1 ''x'' (Integer 5) (snd (new_Environment (Some 0) empty_heap)))
   \<and> evaluate 3 (Stmt (Block [ReturnStatement (Some (ast_Identifier ''x''))])) 1
         (setitem 1 ''x'' (Integer 5) (snd (new_Environment (Some 0) empty_heap)))
       = Inr (Some (Return 0 (Integer 5)),
              (setitem 1 ''x'' (Integer 5) (snd (new_Environment (Some 0) empty_heap)))\<lparr>next_id := 1\<rparr>)
   \<and> apply_func (evaluate 3) (Function 0 [''x''] [ReturnStatement (Some (ast_Identifier ''x''))] 0 [])
         [Integer 5] empty_heap
       = Inr (Integer 5, (setitem 1 ''x'' (Integer 5) (snd (new_Environment (Some 0) empty_heap)))\<lparr>next_id := 1\<rparr>)"
proof -
  let ?H = "setitem 1 ''x'' (Integer 5) (snd (new_Environment (Some 0) empty_heap))"
  have p: "run_prefix (evaluate 3) [ExpressionStatement (Some (ast_Integer (Some 9)))] 0 empty_heap
             = Some empty_heap"
    by (simp add: eval_nat_numeral)
  have r: "evaluate 3 (Stmt (ReturnStatement (Some
        (ast_Infix (ast_Integer (Some 9)) ''*'' (Some (ast_Integer (Some 10))))))) 0 empty_heap
       = Inr (Some (Return 0 (Integer 90)), empty_heap\<lparr>next_id := 1\<rparr>)"
    by (simp add: eval_nat_numeral evaluate_infix_expr_def new_Return_def empty_heap_def)
  have e: "evaluate 3 (Stmt (ExpressionStatement (Some (ast_Identifier ''foo'')))) 0 empty_heap
       = Inr (Some (Error 0 ''Identifier not found: foo''), empty_heap\<lparr>next_id := 1\<rparr>)"
    by (simp add: eval_nat_numeral empty_heap_def evaluate_identifier_def getitem.simps
        new_Error_def BUILTINS_def UNKNOWN_IDENT_def)
  have x: "ext_func_env (Function 0 [''x''] [ReturnStatement (Some (ast_Identifier ''x''))] 0 []) [Integer 5] empty_heap
       = Inr (1, ?H)"
    by (simp add: new_Environment_def empty_heap_def)
  have b: "evaluate 3 (Stmt (Block [ReturnStatement (Some (ast_Identifier ''x''))])) 1 ?H
       = Inr (Some (Return 0 (Integer 5)), ?H\<lparr>next_id := 1\<rparr>)"
    by (simp add: eval_nat_numeral new_Environment_def empty_heap_def setitem_def
        evaluate_identifier_def getitem.simps new_Return_def)
  note C = C2_return_propagation [OF p, where post = "[ExpressionStatement (Some (ast_Integer (Some 10)))]"]
  from C [where s = "ReturnStatement (Some (ast_Infix (ast_Integer (Some 9)) ''*'' (Some (ast_Integer (Some 10)))))"
            and i = 0 and v = "Integer 90" and ?h2.0 = "empty_heap\<lparr>next_id := 1\<rparr>"] r
  have 1: "evaluate (Suc 3) (Program ([ExpressionStatement (Some (ast_Integer (Some 9)))]
         @ ReturnStatement (Some (ast_Infix (ast_Integer (Some 9)) ''*'' (Some (ast_Integer (Some 10)))))
         # [ExpressionStatement (Some (ast_Integer (Some 10)))])) 0 empty_heap
       = Inr (Some (Integer 90), empty_heap\<lparr>next_id := 1\<rparr>)
   \<and> evaluate (Suc 3) (Stmt (Block ([ExpressionStatement (Some (ast_Integer (Some 9)))]
         @ ReturnStatement (Some (ast_Infix (ast_Integer (Some 9)) ''*'' (Some (ast_Integer (Some 10)))))
         # [ExpressionStatement (Some (ast_Integer (Some 10)))]))) 0 empty_heap
       = Inr (Some (Return 0 (Integer 90)), empty_heap\<lparr>next_id := 1\<rparr>)"
    by blast
  from C [where s = "ExpressionStatement (Some (ast_Identifier ''foo''))"
            and i = 0 and m = "''Identifier not found: foo''" and ?h2.0 = "empty_heap\<lparr>next_id := 1\<rparr>"] e
  have 2: "evaluate (Suc 3) (Program ([ExpressionStatement (Some (ast_Integer (Some 9)))]
         @ ExpressionStatement (Some (ast_Identifier ''foo''))
         # [ExpressionStatement (Some (ast_Integer (Some 10)))])) 0 empty_heap
       = Inr (Some (Error 0 ''Identifier not found: foo''), empty_heap\<lparr>next_id := 1\<rparr>)
   \<and> evaluate (Suc 3) (Stmt (Block ([ExpressionStatement (Some (ast_Integer (Some 9)))]
         @ ExpressionStatement (Some (ast_Identifier ''foo''))
         # [ExpressionStatement (Some (ast_Integer (Some 10)))]))) 0 empty_heap
       = Inr (Some (Error 0 ''Identifier not found: foo''), empty_heap\<lparr>next_id := 1\<rparr>)"
    by blast
  from C [where j = 0 and params = "[''x'']" and body = "[ReturnStatement (Some (ast_Identifier ''x''))]"
            and fenv = 0 and nm = "[]" and args = "[Integer 5]" and hf = empty_heap and ext_env = 1 and h1' = ?H
            and i = 0 and v = "Integer 5" and ?h2.0 = "?H\<lparr>next_id := 1\<rparr>"] x b
  have 3: "apply_func (evaluate 3) (Function 0 [''x''] [ReturnStatement (Some (ast_Identifier ''x''))] 0 [])
         [Integer 5] empty_heap = Inr (Integer 5, ?H\<lparr>next_id := 1\<rparr>)"
    by blast
  from p r e x b 1 2 3 show ?thesis by blast
qed

section \<open>Properties of the lexer\<close>

text \<open>
  The invariant of the lexer: \<^verbatim>\<open>_read_position\<close> is one past \<^verbatim>\<open>_position\<close>, and
  \<^verbatim>\<open>_character\<close> is the character at \<^verbatim>\<open>_position\<close>, or empty past the end.
\<close>

definition lexer_inv :: "Lexer \<Rightarrow> bool" where
  "lexer_inv lx \<longleftrightarrow>
     read_position lx = Suc (position lx)
     \<and> character lx = (if position lx < length (source lx) then [source lx ! position lx] else [])"

text \<open>\<open>advanced lx lx1\<close>: \<open>lx1\<close> is a state of the same lexer as \<open>lx\<close>, not before it.\<close>

definition advanced :: "Lexer \<Rightarrow> Lexer \<Rightarrow> bool" where
  "advanced lx lx1 \<longleftrightarrow> lexer_inv lx1 \<and> source lx1 = source lx \<and> position lx \<le> position lx1"

lemma lexer_inv_read_character [simp]: "lexer_inv (read_character lx)"
  by (simp add: lexer_inv_def read_character_def)

lemma source_read_character [simp]: "source (read_character lx) = source lx"
  by (simp add: read_character_def)

lemma position_read_character [simp]: "position (read_character lx) = read_position lx"
  by (simp add: read_character_def)

lemma lexer_inv_read_position: "lexer_inv lx \<Longrightarrow> read_position lx = Suc (position lx)"
  by (simp add: lexer_inv_def)

lemma lexer_inv_new_Lexer: "lexer_inv (new_Lexer src)"
  by (simp add: new_Lexer_def)

lemma source_new_Lexer: "source (new_Lexer src) = src"
  by (simp add: new_Lexer_def)

lemma advanced_refl: "lexer_inv lx \<Longrightarrow> advanced lx lx"
  by (simp add: advanced_def)

lemma advanced_trans: "advanced a b \<Longrightarrow> advanced b c \<Longrightarrow> advanced a c"
  by (auto simp: advanced_def)

lemma advanced_read_character: "lexer_inv lx \<Longrightarrow> advanced lx (read_character lx)"
  by (simp add: advanced_def lexer_inv_read_position)

lemma advanced_step:
  "lexer_inv lx \<Longrightarrow> advanced (read_character lx) lx1 \<Longrightarrow> advanced lx lx1"
  using advanced_read_character advanced_trans by blast

lemma advanced_skip_whitespace: "lexer_inv lx \<Longrightarrow> advanced lx (skip_whitespace lx)"
proof (induction lx rule: skip_whitespace.induct)
  case (1 lx)
  show ?case
  proof (cases "is_whitespace (character lx)")
    case True
    then have "advanced (read_character lx) (skip_whitespace (read_character lx))"
      using "1.IH" by simp
    with True "1.prems" show ?thesis
      by (simp add: skip_whitespace.simps [of lx] advanced_step)
  next
    case False
    with "1.prems" show ?thesis
      by (simp add: skip_whitespace.simps [of lx] advanced_refl)
  qed
qed

lemma advanced_read_identifier_loop: "lexer_inv lx \<Longrightarrow> advanced lx (read_identifier_loop lx)"
proof (induction lx rule: read_identifier_loop.induct)
  case (1 lx)
  show ?case
  proof (cases "is_letter (character lx) \<or> is_number (character lx)")
    case True
    then have "advanced (read_character lx) (read_identifier_loop (read_character lx))"
      using "1.IH" by simp
    with True "1.prems" show ?thesis
      by (simp add: read_identifier_loop.simps [of lx] advanced_step)
  next
    case False
    with "1.prems" show ?thesis
      by (simp add: read_identifier_loop.simps [of lx] advanced_refl)
  qed
qed

lemma advanced_read_number_loop: "lexer_inv lx \<Longrightarrow> advanced lx (read_number_loop lx)"
proof (induction lx rule: read_number_loop.induct)
  case (1 lx)
  show ?case
  proof (cases "is_number (character lx)")
    case True
    then have "advanced (read_character lx) (read_number_loop (read_character lx))"
      using "1.IH" by simp
    with True "1.prems" show ?thesis
      by (simp add: read_number_loop.simps [of lx] advanced_step)
  next
    case False
    with "1.prems" show ?thesis
      by (simp add: read_number_loop.simps [of lx] advanced_refl)
  qed
qed

lemma advanced_read_string_loop: "lexer_inv lx \<Longrightarrow> advanced lx (read_string_loop q lx)"
proof (induction q lx rule: read_string_loop.induct)
  case (1 q lx)
  show ?case
  proof (cases "character lx \<noteq> q \<and> read_position lx \<le> length (source lx)")
    case True
    then have "advanced (read_character lx) (read_string_loop q (read_character lx))"
      using "1.IH" by simp
    with True "1.prems" show ?thesis
      by (simp add: read_string_loop.simps [of q lx] advanced_step)
  next
    case False
    then have "read_string_loop q lx = lx"
      by (subst read_string_loop.simps) auto
    with "1.prems" show ?thesis
      by (simp add: advanced_refl)
  qed
qed

text \<open>
  \<open>progress lx r\<close>: the result \<open>r\<close> of \<^verbatim>\<open>next_token\<close> leaves the lexer of \<open>lx\<close> in a
  state strictly after \<open>lx\<close>.
\<close>

definition progress :: "Lexer \<Rightarrow> Token \<times> Lexer \<Rightarrow> bool" where
  "progress lx r \<longleftrightarrow>
     lexer_inv (snd r) \<and> source (snd r) = source lx \<and> position lx < position (snd r)"

lemma progress_read_character:
  "advanced lx lx1 \<Longrightarrow> progress lx (t, read_character lx1)"
  by (simp add: progress_def advanced_def lexer_inv_read_position)

lemma then_read_progress:
  "advanced lx lx1 \<Longrightarrow> progress lx (then_read (t, lx1))"
  by (simp add: then_read_def progress_read_character)

lemma two_character_progress:
  assumes "advanced lx lx1"
  shows "progress lx (then_read (make_two_character_token tt lx1))"
proof -
  have "lexer_inv lx1" using assms by (simp add: advanced_def)
  then have "advanced lx (read_character lx1)"
    using assms advanced_read_character advanced_trans by blast
  then show ?thesis
    by (simp add: then_read_def make_two_character_token_def Let_def progress_read_character)
qed

lemma read_string_progress:
  assumes "advanced lx lx1"
  shows "progress lx (case read_string lx1 of (lit, lx2) \<Rightarrow> (Token TT_STRING lit, lx2))"
proof -
  have "lexer_inv lx1" using assms by (simp add: advanced_def)
  then have "advanced lx (read_character lx1)"
    using assms advanced_read_character advanced_trans by blast
  moreover have "advanced (read_character lx1) (read_string_loop (character lx1) (read_character lx1))"
    by (rule advanced_read_string_loop) simp
  ultimately have "advanced lx (read_string_loop (character lx1) (read_character lx1))"
    by (rule advanced_trans)
  then show ?thesis
    by (simp add: read_string_def Let_def progress_read_character)
qed

lemma read_identifier_progress:
  assumes "advanced lx lx1" and "is_letter (character lx1)"
  shows "progress lx (case read_identifier lx1 of (lit, lx2) \<Rightarrow> (Token (lookup_token_type lit) lit, lx2))"
proof -
  have inv: "lexer_inv lx1" using assms by (simp add: advanced_def)
  have eq: "read_identifier_loop lx1 = read_identifier_loop (read_character lx1)"
    using assms(2) by (simp add: read_identifier_loop.simps [of lx1])
  have "advanced (read_character lx1) (read_identifier_loop (read_character lx1))"
    by (rule advanced_read_identifier_loop) simp
  then show ?thesis
    using assms(1) inv
    by (simp add: read_identifier_def Let_def eq progress_def advanced_def lexer_inv_read_position)
qed

lemma read_number_progress:
  assumes "advanced lx lx1" and "is_number (character lx1)"
  shows "progress lx (case read_number lx1 of (lit, lx2) \<Rightarrow> (Token TT_INT lit, lx2))"
proof -
  have inv: "lexer_inv lx1" using assms by (simp add: advanced_def)
  have eq: "read_number_loop lx1 = read_number_loop (read_character lx1)"
    using assms(2) by (simp add: read_number_loop.simps [of lx1])
  have "advanced (read_character lx1) (read_number_loop (read_character lx1))"
    by (rule advanced_read_number_loop) simp
  then show ?thesis
    using assms(1) inv
    by (simp add: read_number_def Let_def eq progress_def advanced_def lexer_inv_read_position)
qed

lemma next_token_progress:
  assumes "lexer_inv lx"
  shows "progress lx (next_token lx)"
proof -
  note adv = advanced_skip_whitespace [OF assms]
  show ?thesis
    unfolding next_token_def Let_def
    by (simp add: then_read_progress [OF adv] two_character_progress [OF adv]
        read_string_progress [OF adv] read_identifier_progress [OF adv]
        read_number_progress [OF adv])
qed


lemma next_token_at_end:
  assumes "lexer_inv lx" and "length (source lx) \<le> position lx"
  shows "fst (next_token lx) = Token TT_EOF []"
proof -
  have ch: "character lx = []"
    using assms by (simp add: lexer_inv_def)
  then have "skip_whitespace lx = lx"
    by (subst skip_whitespace.simps) (simp add: is_whitespace_def)
  with ch show ?thesis
    by (simp add: next_token_def then_read_def)
qed

text \<open>The state of a lexer after \<open>n\<close> calls of \<^verbatim>\<open>next_token\<close>.\<close>

fun after_calls :: "nat \<Rightarrow> Lexer \<Rightarrow> Lexer" where
  "after_calls 0 lx = lx"
| "after_calls (Suc n) lx = after_calls n (snd (next_token lx))"

lemma after_calls_progress:
  "lexer_inv lx \<Longrightarrow>
     lexer_inv (after_calls n lx) \<and> source (after_calls n lx) = source lx
     \<and> position lx + n \<le> position (after_calls n lx)"
proof (induction n arbitrary: lx)
  case 0
  then show ?case by simp
next
  case (Suc n)
  from next_token_progress [OF Suc.prems]
  have inv: "lexer_inv (snd (next_token lx))"
    and src: "source (snd (next_token lx)) = source lx"
    and pos: "position lx < position (snd (next_token lx))"
    by (simp_all add: progress_def)
  from Suc.IH [OF inv] src pos show ?case by simp
qed

text \<open>
  C9. For every source string, each call of \<^verbatim>\<open>next_token\<close> moves the position of
  the lexer forward by at least one, so that after \<open>k\<close> calls it is at least \<open>k\<close>;
  and after \<open>len(source)\<close> calls, or any greater number of calls, the next call
  returns the token \<^verbatim>\<open>EOF\<close> with the empty literal.
\<close>

theorem C9_eof_after_length_calls:
  "k \<le> position (after_calls k (new_Lexer src))
   \<and> (length src \<le> k \<longrightarrow> fst (next_token (after_calls k (new_Lexer src))) = Token TT_EOF [])"
proof -
  from after_calls_progress [OF lexer_inv_new_Lexer, of k src]
  have inv: "lexer_inv (after_calls k (new_Lexer src))"
    and src: "source (after_calls k (new_Lexer src)) = src"
    and pos: "k \<le> position (after_calls k (new_Lexer src))"
    by (simp_all add: source_new_Lexer)
  from next_token_at_end [OF inv] src pos show ?thesis by simp
qed

theorem C9_eof_after_length_calls_witness:
  "length ''a b'' \<le> 3
   \<and> fst (next_token (after_calls 3 (new_Lexer ''a b''))) = Token TT_EOF []
   \<and> fst (next_token (after_calls 7 (new_Lexer ''a b''))) = Token TT_EOF []
   \<and> fst (next_token (after_calls 1 (new_Lexer ''a b''))) = Token TT_IDENT ''b''"
proof -
  have "fst (next_token (after_calls 1 (new_Lexer ''a b''))) = Token TT_IDENT ''b''"
    by code_simp
  with C9_eof_after_length_calls [of 3 "''a b''"] C9_eof_after_length_calls [of 7 "''a b''"]
  show ?thesis by simp
qed

section \<open>Properties of the parser\<close>

text \<open>
  \<open>every_expression P e\<close>: \<open>P\<close> holds of every expression node in the tree of
  \<open>e\<close>, the nodes inside blocks included; \<open>every_statement\<close> is the same for the
  expression nodes of a statement.
\<close>

fun every_expression :: "(expression \<Rightarrow> bool) \<Rightarrow> expression \<Rightarrow> bool"
  and every_statement :: "(expression \<Rightarrow> bool) \<Rightarrow> statement \<Rightarrow> bool" where
  "every_expression P (ast_Identifier v) = P (ast_Identifier v)"
| "every_expression P (ast_Integer v) = P (ast_Integer v)"
| "every_expression P (ast_Boolean v) = P (ast_Boolean v)"
| "every_expression P (ast_StringLiteral v) = P (ast_StringLiteral v)"
| "every_expression P (ast_Prefix oper r) =
     (P (ast_Prefix oper r) \<and> (case r of None \<Rightarrow> True | Some e \<Rightarrow> every_expression P e))"
| "every_expression P (ast_Infix l oper r) =
     (P (ast_Infix l oper r) \<and> every_expression P l
      \<and> (case r of None \<Rightarrow> True | Some e \<Rightarrow> every_expression P e))"
| "every_expression P (ast_If c t a) =
     (P (ast_If c t a)
      \<and> (case c of None \<Rightarrow> True | Some e \<Rightarrow> every_expression P e)
      \<and> (case t of None \<Rightarrow> True | Some ss \<Rightarrow> list_all (every_statement P) ss)
      \<and> (case a of None \<Rightarrow> True | Some ss \<Rightarrow> list_all (every_statement P) ss))"
| "every_expression P (ast_Function ps b nm) =
     (P (ast_Function ps b nm)
      \<and> (case b of None \<Rightarrow> True | Some ss \<Rightarrow> list_all (every_statement P) ss))"
| "every_expression P (ast_Call f args) =
     (P (ast_Call f args) \<and> every_expression P f
      \<and> (case args of None \<Rightarrow> True | Some es \<Rightarrow> list_all (every_expression P) es))"
| "every_statement P (LetStatement nm v) =
     (case v of None \<Rightarrow> True | Some e \<Rightarrow> every_expression P e)"
| "every_statement P (ReturnStatement v) =
     (case v of None \<Rightarrow> True | Some e \<Rightarrow> every_expression P e)"
| "every_statement P (ExpressionStatement v) =
     (case v of None \<Rightarrow> True | Some e \<Rightarrow> every_expression P e)"
| "every_statement P (Block ss) = list_all (every_statement P) ss"

text \<open>
  Two kinds of node that the parser never builds: an \<^verbatim>\<open>Infix\<close> with the
  operator \<^verbatim>\<open>=\<close>, and an \<^verbatim>\<open>Identifier\<close> whose name is one of \<^verbatim>\<open>and\<close>, \<^verbatim>\<open>or\<close>, \<^verbatim>\<open>xor\<close>.
\<close>

fun is_assign_infix :: "expression \<Rightarrow> bool" where
  "is_assign_infix (ast_Infix l oper r) = (oper = ''='')"
| "is_assign_infix e = False"

fun is_word_identifier :: "expression \<Rightarrow> bool" where
  "is_word_identifier (ast_Identifier v) = (v = ''and'' \<or> v = ''or'' \<or> v = ''xor'')"
| "is_word_identifier e = False"

definition plain_node :: "expression \<Rightarrow> bool" where
  "plain_node e = (\<not> is_assign_infix e \<and> \<not> is_word_identifier e)"

text \<open>
  What the lexer guarantees of a token: an \<^verbatim>\<open>IDENT\<close> is not a keyword, and a token
  of a type with an entry in \<^verbatim>\<open>PRECEDENCES\<close> does not have the literal \<^verbatim>\<open>=\<close>.
\<close>

definition token_ok :: "Token \<Rightarrow> bool" where
  "token_ok t =
     ((if token_type t = TT_IDENT then KEYWORDS (literal t) = None else True)
      \<and> (if PRECEDENCES (token_type t) = None then True else literal t \<noteq> ''=''))"

lemma token_ok_lookup: "token_ok (Token (lookup_token_type lit) lit)"
  by (auto simp: token_ok_def lookup_token_type_def KEYWORDS_def PRECEDENCES_def
      split: option.splits if_splits)

lemma character_read_character: "character (read_character lx) = peek_character lx"
  by (simp add: read_character_def peek_character_def)

lemma fst_then_read [simp]: "fst (then_read r) = fst r"
  by (simp add: then_read_def)

lemma token_ok_two_character:
  "character lx = [c] \<Longrightarrow> peek_character lx = [d] \<Longrightarrow> tt \<noteq> TT_IDENT \<Longrightarrow>
     token_ok (fst (make_two_character_token tt lx))"
  by (simp add: make_two_character_token_def Let_def character_read_character token_ok_def)

lemma token_ok_next_token: "token_ok (fst (next_token lx))"
  unfolding next_token_def Let_def
  by (simp add: token_ok_two_character token_ok_lookup split_beta)
     (simp add: token_ok_def PRECEDENCES_def)

definition parser_ok :: "Parser \<Rightarrow> bool" where
  "parser_ok p \<longleftrightarrow> token_ok (current_token p) \<and> token_ok (peek_token p)"

lemma parser_ok_advance_tokens: "parser_ok p \<Longrightarrow> parser_ok (advance_tokens p)"
  by (simp add: parser_ok_def advance_tokens_def split_beta token_ok_next_token)

lemma parser_ok_new_Parser: "parser_ok (new_Parser lx)"
  by (simp add: parser_ok_def new_Parser_def split_beta token_ok_next_token)

lemma parser_ok_errors [simp]: "parser_ok (p\<lparr>errors := es\<rparr>) = parser_ok p"
  by (simp add: parser_ok_def)

lemma parser_ok_expected_token:
  "parser_ok p \<Longrightarrow> parser_ok (snd (expected_token tt p))"
  by (simp add: expected_token_def expected_token_error_def parser_ok_advance_tokens)

lemma parser_ok_skip_semicolon: "parser_ok p \<Longrightarrow> parser_ok (skip_semicolon p)"
  by (simp add: skip_semicolon_def parser_ok_advance_tokens)


text \<open>
  What holds of the results of the parsing functions: every expression
  node of the result is plain, and the tokens of the parser left behind are
  tokens of the lexer.
\<close>

definition expr_ok :: "expression option \<Rightarrow> bool" where
  "expr_ok r = (case r of None \<Rightarrow> True | Some e \<Rightarrow> every_expression plain_node e)"

definition stmt_ok :: "statement option \<Rightarrow> bool" where
  "stmt_ok r = (case r of None \<Rightarrow> True | Some s \<Rightarrow> every_statement plain_node s)"

definition pe_ok :: "expression_parser \<Rightarrow> bool" where
  "pe_ok pe \<longleftrightarrow>
     (\<forall>prec p r p1. parser_ok p \<and> pe prec p = Some (r, p1) \<longrightarrow> parser_ok p1 \<and> expr_ok r)"

lemma pe_okD:
  "pe_ok pe \<Longrightarrow> parser_ok p \<Longrightarrow> pe prec p = Some (r, p1) \<Longrightarrow> parser_ok p1 \<and> expr_ok r"
  unfolding pe_ok_def by blast

lemma expr_ok_simps [simp]:
  "expr_ok None" "expr_ok (Some e) = every_expression plain_node e"
  by (simp_all add: expr_ok_def)

lemma stmt_ok_simps [simp]:
  "stmt_ok None" "stmt_ok (Some s) = every_statement plain_node s"
  by (simp_all add: stmt_ok_def)

lemma expr_ok_case [simp]:
  "(case r of None \<Rightarrow> True | Some e \<Rightarrow> every_expression plain_node e) = expr_ok r"
  by (simp add: expr_ok_def)

lemma parse_let_statement_ok:
  assumes "pe_ok pe" and "parser_ok p" and "parse_let_statement pe p = Some (r, p1)"
  shows "parser_ok p1 \<and> stmt_ok r"
proof -
  note e1 = parser_ok_expected_token [OF assms(2), of TT_IDENT]
  note e2 = parser_ok_expected_token [OF e1, of TT_ASSIGN]
  note a = parser_ok_advance_tokens [OF e2]
  show ?thesis
    using assms(3) e1 e2 pe_okD [OF assms(1) a]
    by (auto simp: parse_let_statement_def Let_def split_beta parser_ok_skip_semicolon
        split: if_splits option.splits)
qed

lemma parse_return_statement_ok:
  assumes "pe_ok pe" and "parser_ok p" and "parse_return_statement pe p = Some (r, p1)"
  shows "parser_ok p1 \<and> stmt_ok r"
  using assms(3) pe_okD [OF assms(1) parser_ok_advance_tokens [OF assms(2)]]
  by (auto simp: parse_return_statement_def parser_ok_skip_semicolon split: option.splits)

lemma parse_expression_statement_ok:
  assumes "pe_ok pe" and "parser_ok p" and "parse_expression_statement pe p = Some (r, p1)"
  shows "parser_ok p1 \<and> stmt_ok r"
  using assms(3) pe_okD [OF assms(1) assms(2)]
  by (auto simp: parse_expression_statement_def parser_ok_skip_semicolon split: option.splits)

lemma parse_statement_ok:
  assumes "pe_ok pe" and "parser_ok p" and "parse_statement pe p = Some (r, p1)"
  shows "parser_ok p1 \<and> stmt_ok r"
  using assms(3) parse_let_statement_ok [OF assms(1,2)] parse_return_statement_ok [OF assms(1,2)]
    parse_expression_statement_ok [OF assms(1,2)]
  by (simp add: parse_statement_def split: if_splits)

lemma parse_block_loop_ok:
  assumes "pe_ok pe"
  shows "parser_ok p \<Longrightarrow> list_all (every_statement plain_node) ss \<Longrightarrow>
     parse_block_loop n pe ss p = Some (r, p1) \<Longrightarrow>
     parser_ok p1 \<and> list_all (every_statement plain_node) r"
proof (induction n arbitrary: ss p)
  case 0
  then show ?case by simp
next
  case (Suc n)
  show ?case
  proof (cases "token_type (current_token p) \<noteq> TT_RBRACE \<and> token_type (current_token p) \<noteq> TT_EOF")
    case False
    with Suc.prems show ?thesis by auto
  next
    case True
    with Suc.prems(3) obtain s q where ps: "parse_statement pe p = Some (s, q)"
      and rest: "parse_block_loop n pe (case s of None \<Rightarrow> ss | Some x \<Rightarrow> ss @ [x]) (advance_tokens q)
                   = Some (r, p1)"
      by (auto split: option.splits)
    from parse_statement_ok [OF assms Suc.prems(1) ps]
    have q: "parser_ok q" and s: "stmt_ok s" by simp_all
    from s Suc.prems(2)
    have "list_all (every_statement plain_node) (case s of None \<Rightarrow> ss | Some x \<Rightarrow> ss @ [x])"
      by (cases s) simp_all
    from Suc.IH [OF parser_ok_advance_tokens [OF q] this rest] show ?thesis .
  qed
qed

lemma parse_block_ok:
  assumes "pe_ok pe" and "parser_ok p" and "parse_block n pe p = Some (r, p1)"
  shows "parser_ok p1 \<and> list_all (every_statement plain_node) r"
  using parse_block_loop_ok [OF assms(1) parser_ok_advance_tokens [OF assms(2)], of "[]" n r p1]
    assms(3)
  by (simp add: parse_block_def)


lemma plain_node_simps [simp]:
  "plain_node (ast_Identifier v) = (v \<noteq> ''and'' \<and> v \<noteq> ''or'' \<and> v \<noteq> ''xor'')"
  "plain_node (ast_Integer i)"
  "plain_node (ast_Boolean b)"
  "plain_node (ast_StringLiteral v)"
  "plain_node (ast_Prefix oper r)"
  "plain_node (ast_Infix l oper r) = (oper \<noteq> ''='')"
  "plain_node (ast_If c t a)"
  "plain_node (ast_Function ps body nm)"
  "plain_node (ast_Call f args)"
  by (simp_all add: plain_node_def)

lemma KEYWORDS_None_words:
  "KEYWORDS v = None \<Longrightarrow> v \<noteq> ''and'' \<and> v \<noteq> ''or'' \<and> v \<noteq> ''xor''"
  by (auto simp: KEYWORDS_def)

lemma parse_identifier_ok:
  assumes "parser_ok p" and "token_type (current_token p) = TT_IDENT"
    and "parse_identifier p = Some (r, p1)"
  shows "parser_ok p1 \<and> expr_ok r"
proof -
  from assms(1,2) have "KEYWORDS (literal (current_token p)) = None"
    by (simp add: parser_ok_def token_ok_def)
  from KEYWORDS_None_words [OF this] assms(1,3) show ?thesis
    by (auto simp: parse_identifier_def)
qed

lemma parse_boolean_ok:
  "parser_ok p \<Longrightarrow> parse_boolean p = Some (r, p1) \<Longrightarrow> parser_ok p1 \<and> expr_ok r"
  by (auto simp: parse_boolean_def)

lemma parse_integer_ok:
  "parser_ok p \<Longrightarrow> parse_integer p = Some (r, p1) \<Longrightarrow> parser_ok p1 \<and> expr_ok r"
  by (auto simp: parse_integer_def split: option.splits)

lemma parse_string_literal_ok:
  "parser_ok p \<Longrightarrow> parse_string_literal p = Some (r, p1) \<Longrightarrow> parser_ok p1 \<and> expr_ok r"
  by (auto simp: parse_string_literal_def)

lemma parse_prefix_expression_ok:
  assumes "pe_ok pe" and "parser_ok p" and "parse_prefix_expression pe p = Some (r, p1)"
  shows "parser_ok p1 \<and> expr_ok r"
  using assms(3) pe_okD [OF assms(1) parser_ok_advance_tokens [OF assms(2)]]
  by (auto simp: parse_prefix_expression_def Let_def split: option.splits)

lemma parse_grouped_expression_ok:
  assumes "pe_ok pe" and "parser_ok p" and "parse_grouped_expression pe p = Some (r, p1)"
  shows "parser_ok p1 \<and> expr_ok r"
proof -
  from assms(3) obtain e q where pe: "pe P_LOWEST (advance_tokens p) = Some (e, q)"
    and r: "(r, p1) = (if \<not> fst (expected_token TT_RPAREN q) then None else e,
                       snd (expected_token TT_RPAREN q))"
    by (auto simp: parse_grouped_expression_def split_beta split: option.splits if_splits)
  from pe_okD [OF assms(1) parser_ok_advance_tokens [OF assms(2)] pe]
  have "parser_ok q" and "expr_ok e" by simp_all
  with r parser_ok_expected_token [of q TT_RPAREN] show ?thesis
    by (auto split: if_splits)
qed

lemma parse_if_ok:
  assumes "pe_ok pe" and "parser_ok p" and "parse_if n pe p = Some (r, p1)"
  shows "parser_ok p1 \<and> expr_ok r"
proof (cases "fst (expected_token TT_LPAREN p)")
  case False
  with assms(2,3) parser_ok_expected_token [of p TT_LPAREN] show ?thesis
    by (auto simp: parse_if_def split_beta)
next
  case ok1: True
  let ?p1 = "snd (expected_token TT_LPAREN p)"
  have p1: "parser_ok (advance_tokens ?p1)"
    by (intro parser_ok_advance_tokens parser_ok_expected_token assms(2))
  from assms(3) ok1 obtain c p2 where pe: "pe P_LOWEST (advance_tokens ?p1) = Some (c, p2)"
    by (auto simp: parse_if_def split_beta split: option.splits)
  from pe_okD [OF assms(1) p1 pe] have p2: "parser_ok p2" and c: "expr_ok c" by simp_all
  let ?p3 = "snd (expected_token TT_RPAREN p2)"
  let ?p4 = "snd (expected_token TT_LBRACE ?p3)"
  have p3: "parser_ok ?p3" by (intro parser_ok_expected_token p2)
  have p4: "parser_ok ?p4" by (intro parser_ok_expected_token p3)
  show ?thesis
  proof (cases "fst (expected_token TT_RPAREN p2) \<and> fst (expected_token TT_LBRACE ?p3)")
    case False
    with assms(3) ok1 pe p3 p4 show ?thesis
      by (auto simp: parse_if_def split_beta split: if_splits)
  next
    case ok23: True
    with assms(3) ok1 pe obtain t p5 where blk: "parse_block n pe ?p4 = Some (t, p5)"
      by (auto simp: parse_if_def split_beta split: option.splits)
    from parse_block_ok [OF assms(1) p4 blk]
    have p5: "parser_ok p5" and t: "list_all (every_statement plain_node) t" by simp_all
    show ?thesis
    proof (cases "token_type (peek_token p5) = TT_ELSE")
      case False
      with assms(3) ok1 pe ok23 blk p5 t c show ?thesis
        by (auto simp: parse_if_def split_beta)
    next
      case else: True
      let ?p6 = "snd (expected_token TT_LBRACE (advance_tokens p5))"
      have p6: "parser_ok ?p6"
        by (intro parser_ok_expected_token parser_ok_advance_tokens p5)
      show ?thesis
      proof (cases "fst (expected_token TT_LBRACE (advance_tokens p5))")
        case False
        with assms(3) ok1 pe ok23 blk else p6 show ?thesis
          by (auto simp: parse_if_def split_beta)
      next
        case True
        with assms(3) ok1 pe ok23 blk else obtain a where
          alt: "parse_block n pe ?p6 = Some (a, p1)"
          and r: "r = Some (ast_If c (Some t) (Some a))"
          by (auto simp: parse_if_def split_beta split: option.splits)
        from parse_block_ok [OF assms(1) p6 alt] r t c show ?thesis by simp
      qed
    qed
  qed
qed

lemma parse_func_params_loop_ok:
  "parser_ok p \<Longrightarrow> parse_func_params_loop n ps p = Some (r, p1) \<Longrightarrow> parser_ok p1"
proof (induction n arbitrary: ps p)
  case 0
  then show ?case by simp
next
  case (Suc n)
  show ?case
  proof (cases "token_type (peek_token p) = TT_COMMA \<and> token_type (peek_token p) \<noteq> TT_EOF")
    case True
    with Suc.prems(2) Suc.IH [OF parser_ok_advance_tokens [OF parser_ok_advance_tokens [OF Suc.prems(1)]]]
    show ?thesis by (simp add: Let_def)
  next
    case False
    with Suc.prems show ?thesis by auto
  qed
qed

lemma parse_func_params_ok:
  assumes "parser_ok p" and "parse_func_params n p = Some (r, p1)"
  shows "parser_ok p1"
proof (cases "token_type (peek_token p) = TT_RPAREN")
  case True
  with assms show ?thesis
    by (auto simp: parse_func_params_def parser_ok_advance_tokens)
next
  case False
  with assms(2) obtain ps q where
    loop: "parse_func_params_loop n [literal (current_token (advance_tokens p))] (advance_tokens p)
             = Some (ps, q)"
    and p1: "p1 = snd (expected_token TT_RPAREN q)"
    by (auto simp: parse_func_params_def Let_def split_beta split: option.splits if_splits)
  from parse_func_params_loop_ok [OF parser_ok_advance_tokens [OF assms(1)] loop] p1
  show ?thesis by (simp add: parser_ok_expected_token)
qed

lemma parse_function_ok:
  assumes "pe_ok pe" and "parser_ok p" and "parse_function n pe p = Some (r, p1)"
  shows "parser_ok p1 \<and> expr_ok r"
proof -
  define q where "q = (if token_type (peek_token p) = TT_IDENT then advance_tokens p else p)"
  have q: "parser_ok q"
    by (simp add: q_def assms(2) parser_ok_advance_tokens)
  let ?p2 = "snd (expected_token TT_LPAREN q)"
  have p2: "parser_ok ?p2" by (intro parser_ok_expected_token q)
  show ?thesis
  proof (cases "fst (expected_token TT_LPAREN q)")
    case False
    with assms(3) p2 show ?thesis
      by (auto simp: parse_function_def q_def Let_def split_beta split: if_splits)
  next
    case ok1: True
    with assms(3) obtain ps p3 where params: "parse_func_params n ?p2 = Some (ps, p3)"
      by (auto simp: parse_function_def q_def Let_def split_beta split: if_splits option.splits)
    have p3: "parser_ok p3" by (rule parse_func_params_ok [OF p2 params])
    let ?p4 = "snd (expected_token TT_LBRACE p3)"
    have p4: "parser_ok ?p4" by (intro parser_ok_expected_token p3)
    show ?thesis
    proof (cases "fst (expected_token TT_LBRACE p3)")
      case False
      with assms(3) ok1 params p4 show ?thesis
        by (auto simp: parse_function_def q_def Let_def split_beta split: if_splits)
    next
      case True
      with assms(3) ok1 params obtain body nm where
        blk: "parse_block n pe ?p4 = Some (body, p1)"
        and r: "r = Some (ast_Function ps (Some body) nm)"
        by (auto simp: parse_function_def q_def Let_def split_beta split: if_splits option.splits)
      from parse_block_ok [OF assms(1) p4 blk] r show ?thesis by simp
    qed
  qed
qed


lemma parse_infix_expression_ok:
  assumes "pe_ok pe" and "parser_ok p" and "every_expression plain_node left"
    and "literal (current_token p) \<noteq> ''=''"
    and "parse_infix_expression pe left p = Some (e, p1)"
  shows "parser_ok p1 \<and> every_expression plain_node e"
  using assms(3,4,5) pe_okD [OF assms(1) parser_ok_advance_tokens [OF assms(2)]]
  by (auto simp: parse_infix_expression_def Let_def split: option.splits)

lemma parse_call_args_loop_ok:
  assumes "pe_ok pe"
  shows "parser_ok p \<Longrightarrow> list_all (every_expression plain_node) es \<Longrightarrow>
     parse_call_args_loop n pe es p = Some (r, p1) \<Longrightarrow>
     parser_ok p1 \<and> list_all (every_expression plain_node) r"
proof (induction n arbitrary: es p)
  case 0
  then show ?case by simp
next
  case (Suc n)
  from Suc.prems(3) obtain e q where pe: "pe P_LOWEST p = Some (e, q)"
    by (auto split: option.splits)
  from pe_okD [OF assms Suc.prems(1) pe] have q: "parser_ok q" and e: "expr_ok e" by simp_all
  define es1 where "es1 = (case e of Some x \<Rightarrow> es @ [x] | None \<Rightarrow> es)"
  from e Suc.prems(2) have es1: "list_all (every_expression plain_node) es1"
    by (cases e) (simp_all add: es1_def)
  show ?case
  proof (cases "token_type (peek_token q) = TT_COMMA")
    case True
    with Suc.prems(3) pe
    have "parse_call_args_loop n pe es1 (advance_tokens (advance_tokens q)) = Some (r, p1)"
      by (simp add: es1_def)
    from Suc.IH [OF parser_ok_advance_tokens [OF parser_ok_advance_tokens [OF q]] es1 this]
    show ?thesis .
  next
    case False
    with Suc.prems(3) pe q es1 show ?thesis
      by (auto simp: es1_def)
  qed
qed

lemma parse_call_args_ok:
  assumes "pe_ok pe" and "parser_ok p" and "parse_call_args n pe p = Some (r, p1)"
  shows "parser_ok p1 \<and> (case r of None \<Rightarrow> True | Some es \<Rightarrow> list_all (every_expression plain_node) es)"
proof (cases "token_type (peek_token p) = TT_RPAREN")
  case True
  with assms(2,3) show ?thesis
    by (auto simp: parse_call_args_def parser_ok_advance_tokens)
next
  case False
  with assms(3) obtain es q where
    loop: "parse_call_args_loop n pe [] (advance_tokens p) = Some (es, q)"
    and r: "(r, p1) = (if \<not> fst (expected_token TT_RPAREN q) then None else Some es,
                       snd (expected_token TT_RPAREN q))"
    by (auto simp: parse_call_args_def split_beta split: option.splits if_splits)
  from parse_call_args_loop_ok [OF assms(1) parser_ok_advance_tokens [OF assms(2)] _ loop]
  have "parser_ok q" and "list_all (every_expression plain_node) es" by simp_all
  with r parser_ok_expected_token [of q TT_RPAREN] show ?thesis
    by (auto split: if_splits)
qed

lemma parse_call_ok:
  assumes "pe_ok pe" and "parser_ok p" and "every_expression plain_node func"
    and "parse_call n pe func p = Some (e, p1)"
  shows "parser_ok p1 \<and> every_expression plain_node e"
  using assms(3,4) parse_call_args_ok [OF assms(1,2)]
  by (auto simp: parse_call_def split: option.splits)

lemma prefix_parse_fns_ok:
  assumes "pe_ok pe" and "parser_ok p"
    and "prefix_parse_fns n pe (token_type (current_token p)) = Some f"
    and "f p = Some (r, p1)"
  shows "parser_ok p1 \<and> expr_ok r"
proof -
  from assms(3) consider
      "f = parse_boolean"
    | "f = parse_identifier" "token_type (current_token p) = TT_IDENT"
    | "f = parse_integer"
    | "f = parse_prefix_expression pe"
    | "f = parse_grouped_expression pe"
    | "f = parse_if n pe"
    | "f = parse_function n pe"
    | "f = parse_string_literal"
    by (auto simp: prefix_parse_fns_def split: if_splits)
  then show ?thesis
  proof cases
    case 1 with assms(2,4) show ?thesis by (simp add: parse_boolean_ok)
  next
    case 2 with assms(2,4) show ?thesis by (simp add: parse_identifier_ok)
  next
    case 3 with assms(2,4) show ?thesis by (simp add: parse_integer_ok)
  next
    case 4 with assms(1,2,4) show ?thesis by (simp add: parse_prefix_expression_ok)
  next
    case 5 with assms(1,2,4) show ?thesis by (simp add: parse_grouped_expression_ok)
  next
    case 6 with assms(1,2,4) show ?thesis by (simp add: parse_if_ok)
  next
    case 7 with assms(1,2,4) show ?thesis by (simp add: parse_function_ok)
  next
    case 8 with assms(2,4) show ?thesis by (simp add: parse_string_literal_ok)
  qed
qed

text \<open>
  The guard of the loop of \<^verbatim>\<open>_parse_expression\<close>: a token whose precedence is
  above any other has an entry in \<^verbatim>\<open>PRECEDENCES\<close>, which \<^verbatim>\<open>ASSIGN\<close> has not.
\<close>

lemma precedence_value_pos: "1 \<le> precedence_value pr"
  by (cases pr) simp_all

lemma guard_PRECEDENCES:
  assumes "precedence_value pr < precedence_value (peek_precedence p)"
  shows "PRECEDENCES (token_type (peek_token p)) \<noteq> None"
proof
  assume "PRECEDENCES (token_type (peek_token p)) = None"
  then have "peek_precedence p = P_LOWEST" by (simp add: peek_precedence_def)
  with assms precedence_value_pos [of pr] show False by simp
qed

lemma current_token_advance_tokens: "current_token (advance_tokens p) = peek_token p"
  by (simp add: advance_tokens_def split_beta)

lemma infix_parse_fns_cases:
  "infix_parse_fns n pe tt = Some f \<Longrightarrow> f = parse_infix_expression pe \<or> f = parse_call n pe"
  by (auto simp: infix_parse_fns_def split: if_splits)

lemma parse_expression_loop_ok:
  assumes "pe_ok pe"
  shows "parser_ok p \<Longrightarrow> expr_ok left \<Longrightarrow>
     parse_expression_loop n pe pr left p = Some (r, p1) \<Longrightarrow> parser_ok p1 \<and> expr_ok r"
proof (induction n arbitrary: left p)
  case 0
  then show ?case by simp
next
  case (Suc n)
  show ?case
  proof (cases "token_type (peek_token p) \<noteq> TT_SEMICOLON
         \<and> precedence_value pr < precedence_value (peek_precedence p)")
    case False
    with Suc.prems show ?thesis by auto
  next
    case guard: True
    show ?thesis
    proof (cases "infix_parse_fns n pe (token_type (peek_token p))")
      case None
      with guard Suc.prems show ?thesis by auto
    next
      case (Some f)
      have adv: "parser_ok (advance_tokens p)"
        by (rule parser_ok_advance_tokens [OF Suc.prems(1)])
      show ?thesis
      proof (cases left)
        case None
        with guard Some Suc.prems(3) adv show ?thesis by (auto simp: Let_def)
      next
        case (Some l)
        with Suc.prems(2) have l: "every_expression plain_node l" by simp
        from guard Suc.prems(3) \<open>infix_parse_fns n pe (token_type (peek_token p)) = Some f\<close> Some
        obtain e q where f: "f l (advance_tokens p) = Some (e, q)"
          and rest: "parse_expression_loop n pe pr (Some e) q = Some (r, p1)"
          by (auto simp: Let_def split: option.splits)
        from guard have "PRECEDENCES (token_type (peek_token p)) \<noteq> None"
          by (intro guard_PRECEDENCES [of pr]) simp
        with Suc.prems(1) have "literal (peek_token p) \<noteq> ''=''"
          by (auto simp: parser_ok_def token_ok_def split: if_splits)
        then have lit: "literal (current_token (advance_tokens p)) \<noteq> ''=''"
          by (simp add: current_token_advance_tokens)
        from infix_parse_fns_cases [OF \<open>infix_parse_fns n pe (token_type (peek_token p)) = Some f\<close>]
        have "parser_ok q \<and> every_expression plain_node e"
        proof
          assume "f = parse_infix_expression pe"
          with f parse_infix_expression_ok [OF assms adv l lit] show ?thesis by simp
        next
          assume "f = parse_call n pe"
          with f parse_call_ok [OF assms adv l] show ?thesis by simp
        qed
        then have "parser_ok q" and "expr_ok (Some e)" by simp_all
        from Suc.IH [OF this rest] show ?thesis .
      qed
    qed
  qed
qed

lemma parse_expression_ok: "pe_ok (parse_expression n)"
proof (induction n)
  case 0
  show ?case by (simp add: pe_ok_def)
next
  case (Suc n)
  show ?case
    unfolding pe_ok_def
  proof (intro allI impI, elim conjE)
    fix prec p r p1
    assume p: "parser_ok p" and run: "parse_expression (Suc n) prec p = Some (r, p1)"
    show "parser_ok p1 \<and> expr_ok r"
    proof (cases "prefix_parse_fns n (parse_expression n) (token_type (current_token p))")
      case None
      with run p show ?thesis by auto
    next
      case (Some f)
      with run obtain l q where f: "f p = Some (l, q)"
        and loop: "parse_expression_loop n (parse_expression n) prec l q = Some (r, p1)"
        by (auto split: option.splits)
      from prefix_parse_fns_ok [OF Suc p Some f] have "parser_ok q" and "expr_ok l" by simp_all
      from parse_expression_loop_ok [OF Suc this loop] show ?thesis .
    qed
  qed
qed

lemma parse_program_loop_ok:
  "parser_ok p \<Longrightarrow> list_all (every_statement plain_node) ss \<Longrightarrow>
     parse_program_loop n ss p = Some (r, p1) \<Longrightarrow>
     parser_ok p1 \<and> list_all (every_statement plain_node) r"
proof (induction n arbitrary: ss p)
  case 0
  then show ?case by simp
next
  case (Suc n)
  show ?case
  proof (cases "token_type (current_token p) \<noteq> TT_EOF")
    case False
    with Suc.prems show ?thesis by auto
  next
    case True
    with Suc.prems(3) obtain s q where ps: "parse_statement (parse_expression n) p = Some (s, q)"
      and rest: "parse_program_loop n (case s of None \<Rightarrow> ss | Some x \<Rightarrow> ss @ [x]) (advance_tokens q)
                   = Some (r, p1)"
      by (auto split: option.splits)
    from parse_statement_ok [OF parse_expression_ok Suc.prems(1) ps]
    have q: "parser_ok q" and s: "stmt_ok s" by simp_all
    from s Suc.prems(2)
    have "list_all (every_statement plain_node) (case s of None \<Rightarrow> ss | Some x \<Rightarrow> ss @ [x])"
      by (cases s) simp_all
    from Suc.IH [OF parser_ok_advance_tokens [OF q] this rest] show ?thesis .
  qed
qed

lemma parse_program_plain:
  assumes "parse_program n (new_Parser (new_Lexer src)) = Some (statements, p)"
  shows "list_all (every_statement plain_node) statements"
  using parse_program_loop_ok [OF parser_ok_new_Parser, of "[]" n "new_Lexer src" statements p] assms
  by (simp add: parse_program_def)


lemma every_mono:
  "(\<forall>x. P x \<longrightarrow> Q x) \<Longrightarrow> every_expression P e \<Longrightarrow> every_expression Q e"
  "(\<forall>x. P x \<longrightarrow> Q x) \<Longrightarrow> every_statement P s \<Longrightarrow> every_statement Q s"
  by (induction P e and P s rule: every_expression_every_statement.induct)
     (auto simp: list_all_iff split: option.splits)

lemma list_all_every_statement_mono:
  assumes "list_all (every_statement P) ss" and "\<forall>x. P x \<longrightarrow> Q x"
  shows "list_all (every_statement Q) ss"
  using assms every_mono(2) [of P Q] by (auto simp: list_all_iff)

text \<open>
  C5, as the code has it. No source program parses to a tree with an \<^verbatim>\<open>Infix\<close>
  node whose operator is \<^verbatim>\<open>=\<close>: whenever \<^verbatim>\<open>parse_program\<close> returns a program,
  none of its expression nodes is such a node. \<^verbatim>\<open>ASSIGN\<close> has an infix function,
  but no entry in \<^verbatim>\<open>PRECEDENCES\<close>, so that its precedence is the lowest and the
  loop of \<^verbatim>\<open>_parse_expression\<close> never goes on at \<^verbatim>\<open>=\<close>.
\<close>

theorem C5_assign_never_infix:
  "(map_option fst (parse_program n (new_Parser (new_Lexer src))) = Some statements
      \<longrightarrow> list_all (every_statement (\<lambda>e. \<not> is_assign_infix e)) statements)
   \<and> infix_parse_fns k pe TT_ASSIGN = Some (parse_infix_expression pe)
   \<and> PRECEDENCES TT_ASSIGN = None"
proof (intro conjI impI)
  assume "map_option fst (parse_program n (new_Parser (new_Lexer src))) = Some statements"
  then obtain p where "parse_program n (new_Parser (new_Lexer src)) = Some (statements, p)"
    by auto
  from parse_program_plain [OF this]
  show "list_all (every_statement (\<lambda>e. \<not> is_assign_infix e)) statements"
    by (rule list_all_every_statement_mono) (simp add: plain_node_def)
next
  show "infix_parse_fns k pe TT_ASSIGN = Some (parse_infix_expression pe)"
    by (simp add: infix_parse_fns_def)
  show "PRECEDENCES TT_ASSIGN = None"
    by (simp add: PRECEDENCES_def)
qed

text \<open>
  An instance is the source \<^verbatim>\<open>1 = 2\<close>: the expression ends before \<^verbatim>\<open>=\<close>, which
  then starts a statement of its own and has no prefix function.
\<close>

theorem C5_assign_never_infix_witness:
  "map_option fst (parse_program 5 (new_Parser (new_Lexer ''1 = 2'')))
     = Some [ExpressionStatement (Some (ast_Integer (Some 1))),
             ExpressionStatement None,
             ExpressionStatement (Some (ast_Integer (Some 2)))]
   \<and> map_option (errors \<circ> snd) (parse_program 5 (new_Parser (new_Lexer ''1 = 2'')))
     = Some [''No function found to parse: ='']
   \<and> list_all (every_statement (\<lambda>e. \<not> is_assign_infix e))
        [ExpressionStatement (Some (ast_Integer (Some 1))),
         ExpressionStatement None,
         ExpressionStatement (Some (ast_Integer (Some 2)))]"
proof -
  have run: "map_option fst (parse_program 5 (new_Parser (new_Lexer ''1 = 2'')))
     = Some [ExpressionStatement (Some (ast_Integer (Some 1))),
             ExpressionStatement None,
             ExpressionStatement (Some (ast_Integer (Some 2)))]"
    by code_simp
  have errs: "map_option (errors \<circ> snd) (parse_program 5 (new_Parser (new_Lexer ''1 = 2'')))
     = Some [''No function found to parse: ='']"
    by code_simp
  from C5_assign_never_infix [where n = 5 and src = "''1 = 2''"] run errs show ?thesis by simp
qed

text \<open>
  C5 as stated fails: there is no source program, and no bound on the recursion
  of the parser, for which \<^verbatim>\<open>parse_program\<close> returns a program with an \<^verbatim>\<open>Infix\<close>
  node whose operator is \<^verbatim>\<open>=\<close>.
\<close>

theorem C5_assign_never_infix_counterexample:
  "\<not> (\<exists>n src statements.
         map_option fst (parse_program n (new_Parser (new_Lexer src))) = Some statements
         \<and> \<not> list_all (every_statement (\<lambda>e. \<not> is_assign_infix e)) statements)"
proof
  assume "\<exists>n src statements.
         map_option fst (parse_program n (new_Parser (new_Lexer src))) = Some statements
         \<and> \<not> list_all (every_statement (\<lambda>e. \<not> is_assign_infix e)) statements"
  then obtain n src statements p where
    run: "parse_program n (new_Parser (new_Lexer src)) = Some (statements, p)"
    and bad: "\<not> list_all (every_statement (\<lambda>e. \<not> is_assign_infix e)) statements"
    by auto
  from parse_program_plain [OF run]
  have "list_all (every_statement (\<lambda>e. \<not> is_assign_infix e)) statements"
    by (rule list_all_every_statement_mono) (simp add: plain_node_def)
  with bad show False by contradiction
qed

text \<open>
  An infix operator that is none of the operators of integers and strings,
  as the words \<^verbatim>\<open>and\<close>, \<^verbatim>\<open>or\<close>, \<^verbatim>\<open>xor\<close> are: the result is an error, a type
  mismatch for operands of different types and an invalid operation otherwise.
\<close>

lemma evaluate_infix_expr_other:
  assumes "oper \<noteq> ''+''" "oper \<noteq> ''-''" "oper \<noteq> ''*''" "oper \<noteq> ''/''" "oper \<noteq> ''<''"
    "oper \<noteq> ''>''" "oper \<noteq> ''==''" "oper \<noteq> ''!=''" "oper \<noteq> ''<=''" "oper \<noteq> ''>=''"
  shows "evaluate_infix_expr oper l r h =
     Inr (new_Error
            (if obj_type l \<noteq> obj_type r
             then TYPE_MISMATCH (type_name (obj_type l)) oper (type_name (obj_type r))
             else UNKNOWN_INFIX_OPER (type_name (obj_type l)) oper (type_name (obj_type r))) h)"
  by (cases l; cases r) (simp_all add: evaluate_infix_expr_def assms)

lemma evaluate_infix_expr_word:
  assumes "oper = ''and'' \<or> oper = ''or'' \<or> oper = ''xor''"
  shows "evaluate_infix_expr oper l r h =
     Inr (new_Error
            (if obj_type l \<noteq> obj_type r
             then TYPE_MISMATCH (type_name (obj_type l)) oper (type_name (obj_type r))
             else UNKNOWN_INFIX_OPER (type_name (obj_type l)) oper (type_name (obj_type r))) h)"
proof (rule evaluate_infix_expr_other)
qed (use assms in auto)

lemma lookup_token_type_words:
  "lookup_token_type ''and'' = TT_AND"
  "lookup_token_type ''or'' = TT_OR"
  "lookup_token_type ''xor'' = TT_XOR"
  by (simp_all add: lookup_token_type_def KEYWORDS_def)

text \<open>
  C6, as the code has it. The words \<^verbatim>\<open>and\<close>, \<^verbatim>\<open>or\<close>, \<^verbatim>\<open>xor\<close> never parse as
  identifiers: no program that \<^verbatim>\<open>parse_program\<close> returns has an \<^verbatim>\<open>Identifier\<close>
  expression with one of these names. The lexer gives the words the token types
  \<^verbatim>\<open>AND\<close>, \<^verbatim>\<open>OR\<close>, \<^verbatim>\<open>XOR\<close> of the symbolic forms, which have an infix function and
  the precedence \<^verbatim>\<open>LESSGREATER\<close>; and an \<^verbatim>\<open>Infix\<close> with such a word as operator
  evaluates to a \<^verbatim>\<open>Type mismatch\<close> error for operands of different types and to
  an \<^verbatim>\<open>Invalid operation\<close> error otherwise.
\<close>

theorem C6_word_operators_amended:
  "(map_option fst (parse_program n (new_Parser (new_Lexer src))) = Some statements
      \<longrightarrow> list_all (every_statement (\<lambda>e. \<not> is_word_identifier e)) statements)
   \<and> (w = ''and'' \<or> w = ''or'' \<or> w = ''xor''
      \<longrightarrow> lookup_token_type w \<noteq> TT_IDENT
        \<and> infix_parse_fns k pe (lookup_token_type w) = Some (parse_infix_expression pe)
        \<and> PRECEDENCES (lookup_token_type w) = Some P_LESSGREATER
        \<and> evaluate_infix_expr w l r h =
            Inr (new_Error
                   (if obj_type l \<noteq> obj_type r
                    then TYPE_MISMATCH (type_name (obj_type l)) w (type_name (obj_type r))
                    else UNKNOWN_INFIX_OPER (type_name (obj_type l)) w (type_name (obj_type r))) h))"
proof (intro conjI impI)
  assume "map_option fst (parse_program n (new_Parser (new_Lexer src))) = Some statements"
  then obtain p where "parse_program n (new_Parser (new_Lexer src)) = Some (statements, p)"
    by auto
  from parse_program_plain [OF this]
  show "list_all (every_statement (\<lambda>e. \<not> is_word_identifier e)) statements"
    by (rule list_all_every_statement_mono) (simp add: plain_node_def)
next
  assume w: "w = ''and'' \<or> w = ''or'' \<or> w = ''xor''"
  then show "lookup_token_type w \<noteq> TT_IDENT"
    by (elim disjE) (simp_all add: lookup_token_type_words)
  from w show "infix_parse_fns k pe (lookup_token_type w) = Some (parse_infix_expression pe)"
    by (elim disjE) (simp_all add: lookup_token_type_words infix_parse_fns_def)
  from w show "PRECEDENCES (lookup_token_type w) = Some P_LESSGREATER"
    by (elim disjE) (simp_all add: lookup_token_type_words PRECEDENCES_def)
  from w show "evaluate_infix_expr w l r h =
            Inr (new_Error
                   (if obj_type l \<noteq> obj_type r
                    then TYPE_MISMATCH (type_name (obj_type l)) w (type_name (obj_type r))
                    else UNKNOWN_INFIX_OPER (type_name (obj_type l)) w (type_name (obj_type r))) h)"
    by (rule evaluate_infix_expr_word)
qed

theorem C6_word_operators_amended_witness:
  "map_option fst (parse_program 5 (new_Parser (new_Lexer ''a and b'')))
     = Some [ExpressionStatement (Some
               (ast_Infix (ast_Identifier ''a'') ''and'' (Some (ast_Identifier ''b''))))]
   \<and> list_all (every_statement (\<lambda>e. \<not> is_word_identifier e))
        [ExpressionStatement (Some
           (ast_Infix (ast_Identifier ''a'') ''and'' (Some (ast_Identifier ''b''))))]
   \<and> (''and'' = ''and'' \<or> ''and'' = ''or'' \<or> ''and'' = ''xor'')
   \<and> lookup_token_type ''and'' = TT_AND
   \<and> PRECEDENCES (lookup_token_type ''and'') = Some P_LESSGREATER
   \<and> evaluate_infix_expr ''and'' TRUE FALSE empty_heap
       = Inr (Error 0 ''Invalid operation: BOOLEAN and BOOLEAN'', empty_heap\<lparr>next_id := 1\<rparr>)
   \<and> evaluate_infix_expr ''and'' TRUE (Integer 1) empty_heap
       = Inr (Error 0 ''Type mismatch: BOOLEAN and INTEGER'', empty_heap\<lparr>next_id := 1\<rparr>)"
proof -
  have run: "map_option fst (parse_program 5 (new_Parser (new_Lexer ''a and b'')))
     = Some [ExpressionStatement (Some
               (ast_Infix (ast_Identifier ''a'') ''and'' (Some (ast_Identifier ''b''))))]"
    by code_simp
  have w: "''and'' = ''and'' \<or> ''and'' = ''or'' \<or> ''and'' = ''xor''" by simp
  have lk: "lookup_token_type ''and'' = TT_AND"
    by (simp add: lookup_token_type_words)
  note C = C6_word_operators_amended [where n = 5 and src = "''a and b''" and w = "''and''"
      and h = empty_heap and l = TRUE]
  from C [where r = FALSE] C [where r = "Integer 1"] run w lk show ?thesis
    by (simp add: new_Error_def empty_heap_def UNKNOWN_INFIX_OPER_def TYPE_MISMATCH_def)
qed

text \<open>
  C6 as stated fails at \<^verbatim>\<open>a and b\<close>: the word is the operator of an \<^verbatim>\<open>Infix\<close> node,
  not an identifier, and the program evaluates to the error
  \<^verbatim>\<open>Invalid operation: ERROR and ERROR\<close>, not to \<^verbatim>\<open>Identifier not found: and\<close>.
\<close>

theorem C6_word_operators_counterexample:
  "map_option fst (parse_program 5 (new_Parser (new_Lexer ''a and b'')))
     = Some [ExpressionStatement (Some
               (ast_Infix (ast_Identifier ''a'') ''and'' (Some (ast_Identifier ''b''))))]
   \<and> map_sum id fst (evaluate 4 (Program [ExpressionStatement (Some
               (ast_Infix (ast_Identifier ''a'') ''and'' (Some (ast_Identifier ''b''))))]) 0 empty_heap)
     = Inr (Some (Error 2 ''Invalid operation: ERROR and ERROR''))
   \<and> ''Invalid operation: ERROR and ERROR'' \<noteq> UNKNOWN_IDENT ''and''"
proof -
  have run: "map_option fst (parse_program 5 (new_Parser (new_Lexer ''a and b'')))
     = Some [ExpressionStatement (Some
               (ast_Infix (ast_Identifier ''a'') ''and'' (Some (ast_Identifier ''b''))))]"
    by code_simp
  have ev: "map_sum id fst (evaluate 4 (Program [ExpressionStatement (Some
               (ast_Infix (ast_Identifier ''a'') ''and'' (Some (ast_Identifier ''b''))))]) 0 empty_heap)
     = Inr (Some (Error 2 ''Invalid operation: ERROR and ERROR''))"
    by code_simp
  have ne: "''Invalid operation: ERROR and ERROR'' \<noteq> UNKNOWN_IDENT ''and''"
    by (simp add: UNKNOWN_IDENT_def)
  from run ev ne show ?thesis by blast
qed

end
